theory Spec2Isabelle
  imports Main "HOL-Library.Sublist" "HOL-Library.AList"
begin

chapter \<open>The model\<close>

text \<open>
  The back end of the resume analyzer keeps one session per upload
  (\<open>SessionManager\<close>), fans events out to the event streams attached to a session
  (\<open>SSEManager\<close>), and runs the analysis with retries (\<open>analyzeWithRetry\<close>).
  Every function below is the translation of the JavaScript function of the same name.
  The clock, the response objects of the HTTP layer, \<open>JSON.parse\<close> and the
  generative model are outside the code: they appear as arguments.
\<close>

section \<open>GeminiService: parsing the analysis response (src/unnamed/part_000)\<close>

text \<open>
  A parsed JSON value. Numbers carry an integer: the code only asks whether a score is
  zero.
\<close>

datatype json = JNull | JBool bool | JNum int | JStr string
  | JArr "json list" | JObj "(string \<times> json) list"

text \<open>
  What a JavaScript statement can throw here: a \<open>TypeError\<close> (a property of
  \<open>null\<close> or \<open>undefined\<close> is read), the \<open>SyntaxError\<close> of \<open>JSON.parse\<close>, or
  \<open>new Error(message)\<close>.
\<close>

datatype exn = TypeError | SyntaxError | Error string

text \<open>
  \<open>String.prototype.trim\<close>, \<open>indexOf\<close>, \<open>lastIndexOf\<close> (\<open>None\<close> is \<open>-1\<close>) and
  \<open>substring\<close>, which swaps its arguments when the first is the larger and stops at
  the end of the string.
\<close>

definition isWhiteSpace :: "char \<Rightarrow> bool" where
  "isWhiteSpace c = (c \<in> set [CHR '' '', CHR 0x09, CHR 0x0A, CHR 0x0B, CHR 0x0C, CHR 0x0D])"

definition trim :: "string \<Rightarrow> string" where
  "trim s = rev (dropWhile isWhiteSpace (rev (dropWhile isWhiteSpace s)))"

fun indexOf :: "char \<Rightarrow> string \<Rightarrow> nat option" where
  "indexOf c [] = None"
| "indexOf c (x # xs) = (if x = c then Some 0 else map_option Suc (indexOf c xs))"

fun lastIndexOf :: "char \<Rightarrow> string \<Rightarrow> nat option" where
  "lastIndexOf c [] = None"
| "lastIndexOf c (x # xs) =
     (case lastIndexOf c xs of
        Some i \<Rightarrow> Some (Suc i)
      | None \<Rightarrow> if x = c then Some 0 else None)"

definition substring :: "string \<Rightarrow> nat \<Rightarrow> nat \<Rightarrow> string" where
  "substring s a b = take (max a b - min a b) (drop (min a b) s)"

text \<open>
  \<open>!v\<close> is \<open>\<not> truthy v\<close>; \<open>None\<close> is \<open>undefined\<close>. \<open>getProp v k\<close> is \<open>v[k]\<close> for
  the property names the validation reads: it throws on \<open>null\<close>, and is
  \<open>undefined\<close> on arrays, strings, numbers and booleans.
\<close>

definition truthy :: "json option \<Rightarrow> bool" where
  "truthy v = (case v of
       None \<Rightarrow> False
     | Some JNull \<Rightarrow> False
     | Some (JBool b) \<Rightarrow> b
     | Some (JNum n) \<Rightarrow> n \<noteq> 0
     | Some (JStr s) \<Rightarrow> s \<noteq> []
     | Some (JArr _) \<Rightarrow> True
     | Some (JObj _) \<Rightarrow> True)"

definition getProp :: "json \<Rightarrow> string \<Rightarrow> exn + json option" where
  "getProp v k = (case v of
       JNull \<Rightarrow> Inl TypeError
     | JObj kvs \<Rightarrow> Inr (map_of kvs k)
     | _ \<Rightarrow> Inr None)"

definition isArray :: "json option \<Rightarrow> bool" where
  "isArray v = (case v of Some (JArr _) \<Rightarrow> True | _ \<Rightarrow> False)"

text \<open>
  \<open>validateFeedbackStructure\<close>: the loop over \<open>requiredFields\<close>, then the four
  structure checks in the order of the source; \<open>field fb a b\<close> is \<open>fb.a.b\<close>.
\<close>

fun requireFields :: "json \<Rightarrow> string list \<Rightarrow> exn + unit" where
  "requireFields fb [] = Inr ()"
| "requireFields fb (f # fs) =
     (case getProp fb f of
        Inl e \<Rightarrow> Inl e
      | Inr v \<Rightarrow> if \<not> truthy v then Inl (Error (''Missing required field: '' @ f))
                 else requireFields fb fs)"

definition field :: "json \<Rightarrow> string \<Rightarrow> string \<Rightarrow> exn + json option" where
  "field fb a b = (case getProp fb a of
       Inl e \<Rightarrow> Inl e
     | Inr None \<Rightarrow> Inl TypeError
     | Inr (Some v) \<Rightarrow> getProp v b)"

definition validateFeedbackStructure :: "json \<Rightarrow> exn + unit" where
  "validateFeedbackStructure fb =
     (case requireFields fb [''clarity'', ''grammar'', ''skills'', ''improvements''] of
        Inl e \<Rightarrow> Inl e
      | Inr _ \<Rightarrow>
     (case field fb ''clarity'' ''score'' of Inl e \<Rightarrow> Inl e | Inr cs \<Rightarrow>
      if \<not> truthy cs then Inl (Error ''Invalid clarity structure'') else
     (case field fb ''clarity'' ''suggestions'' of Inl e \<Rightarrow> Inl e | Inr cg \<Rightarrow>
      if \<not> isArray cg then Inl (Error ''Invalid clarity structure'') else
     (case field fb ''grammar'' ''score'' of Inl e \<Rightarrow> Inl e | Inr gs \<Rightarrow>
      if \<not> truthy gs then Inl (Error ''Invalid grammar structure'') else
     (case field fb ''grammar'' ''corrections'' of Inl e \<Rightarrow> Inl e | Inr gc \<Rightarrow>
      if \<not> isArray gc then Inl (Error ''Invalid grammar structure'') else
     (case field fb ''skills'' ''relevantSkills'' of Inl e \<Rightarrow> Inl e | Inr sr \<Rightarrow>
      if \<not> isArray sr then Inl (Error ''Invalid skills structure'') else
     (case getProp fb ''improvements'' of Inl e \<Rightarrow> Inl e | Inr im \<Rightarrow>
      if \<not> isArray im then Inl (Error ''Invalid improvements structure'')
      else Inr ())))))))"

definition getFallbackFeedback :: json where
  "getFallbackFeedback = JObj [
     (''clarity'', JObj [
        (''score'', JNum 5),
        (''suggestions'', JArr [JStr ''Unable to analyze clarity - please try again'']),
        (''strengths'', JArr []),
        (''weaknesses'', JArr [])]),
     (''grammar'', JObj [
        (''score'', JNum 5),
        (''corrections'', JArr [JStr ''Unable to analyze grammar - please try again'']),
        (''improvements'', JArr [])]),
     (''skills'', JObj [
        (''relevantSkills'', JArr []),
        (''missingSkills'', JArr []),
        (''recommendations'', JArr [JStr ''Unable to analyze skills - please try again''])]),
     (''improvements'', JArr [JObj [
        (''category'', JStr ''content''),
        (''priority'', JStr ''medium''),
        (''suggestion'', JStr ''Analysis failed - please try uploading your resume again''),
        (''example'', JStr ''Ensure your PDF is not password protected and contains readable text'')]])]"

text \<open>
  \<open>parseResponse\<close>: \<open>parseBody\<close> is the body of the \<open>try\<close> block, whose every throw
  is caught by the \<open>catch\<close> that returns the fallback. \<open>JSON_parse\<close> stands for
  \<open>JSON.parse\<close>: \<open>None\<close> when it throws.
\<close>

definition parseBody :: "(string \<Rightarrow> json option) \<Rightarrow> string \<Rightarrow> exn + json" where
  "parseBody JSON_parse response =
     (let cleanResponse = trim response in
      case (indexOf CHR ''{'' cleanResponse, lastIndexOf CHR ''}'' cleanResponse) of
        (Some jsonStart, Some jsonEnd) \<Rightarrow>
          (case JSON_parse (substring cleanResponse jsonStart (jsonEnd + 1)) of
             None \<Rightarrow> Inl SyntaxError
           | Some parsed \<Rightarrow>
               (case validateFeedbackStructure parsed of
                  Inl e \<Rightarrow> Inl e
                | Inr _ \<Rightarrow> Inr parsed))
      | _ \<Rightarrow> Inl (Error ''No valid JSON found in response''))"

definition parseResponse :: "(string \<Rightarrow> json option) \<Rightarrow> string \<Rightarrow> exn + json" where
  "parseResponse JSON_parse response =
     (case parseBody JSON_parse response of
        Inl e \<Rightarrow> Inr getFallbackFeedback
      | Inr parsed \<Rightarrow> Inr parsed)"

text \<open>
  The same operation in the words of the specification: the payload is the text from
  the first \<open>{\<close> to the last \<open>}\<close> of the response; when there is none, or it does
  not parse or validate, the result is the fallback structure.
\<close>

definition jsonBlock :: "string \<Rightarrow> string option" where
  "jsonBlock s = (case (indexOf CHR ''{'' s, lastIndexOf CHR ''}'' s) of
       (Some i, Some j) \<Rightarrow> if i \<le> j then Some (take (Suc j - i) (drop i s)) else None
     | _ \<Rightarrow> None)"

definition isValid :: "json \<Rightarrow> bool" where
  "isValid v = (validateFeedbackStructure v = Inr ())"

definition parseResponse_spec :: "(string \<Rightarrow> json option) \<Rightarrow> string \<Rightarrow> json" where
  "parseResponse_spec JSON_parse response =
     (case jsonBlock response of
        None \<Rightarrow> getFallbackFeedback
      | Some b \<Rightarrow>
          (case JSON_parse b of
             None \<Rightarrow> getFallbackFeedback
           | Some v \<Rightarrow> if isValid v then v else getFallbackFeedback))"

section \<open>SessionManager (src/backend/services/sseManager.js, from line 337)\<close>

text \<open>
  A session is the plain object built by \<open>createSession\<close>. Timestamps are
  milliseconds since the epoch. \<open>expiresAt = None\<close> stands for a missing or falsy
  \<open>expiresAt\<close>, which \<open>isSessionExpired\<close> tests with \<open>!session.expiresAt\<close>.
  \<open>fileInfo\<close> is a reference to the object the upload layer owns. \<open>retryCount\<close> is
  a number in every session the code builds, so that \<open>session.retryCount || 0\<close> is
  \<open>retryCount\<close>. The map of
  sessions holds values here: the code never changes a stored object in place, every
  write stores a new object. The section after this one keeps the references, for the
  one property that is about them.
\<close>

record session =
  sessionId :: string
  status :: string
  createdAt :: int
  updatedAt :: int
  expiresAt :: "int option"
  retryCount :: nat
  lastError :: "string option"
  extractedText :: "string option"
  feedback :: "json option"
  completedAt :: "int option"
  fileInfo :: "nat option"

text \<open>
  The argument of \<open>createSession\<close> and \<open>updateSession\<close> is a partial object: every
  field may be present or not. \<open>Some None\<close> for \<open>lastError\<close> is
  \<open>lastError: null\<close>.
\<close>

record sessionData =
  d_sessionId :: "string option"
  d_status :: "string option"
  d_expiresAt :: "int option option"
  d_retryCount :: "nat option"
  d_lastError :: "string option option"
  d_extractedText :: "string option option"
  d_feedback :: "json option option"
  d_completedAt :: "int option option"
  d_fileInfo :: "nat option option"

definition noData :: sessionData where
  "noData = \<lparr> d_sessionId = None, d_status = None, d_expiresAt = None,
     d_retryCount = None, d_lastError = None, d_extractedText = None,
     d_feedback = None, d_completedAt = None, d_fileInfo = None \<rparr>"

text \<open>The object spread \<open>{ ...s, ...d }\<close>: fields present in \<open>d\<close> win.\<close>

definition spread :: "session \<Rightarrow> sessionData \<Rightarrow> session" where
  "spread s d = s \<lparr>
     sessionId := (case d_sessionId d of None \<Rightarrow> sessionId s | Some v \<Rightarrow> v),
     status := (case d_status d of None \<Rightarrow> status s | Some v \<Rightarrow> v),
     expiresAt := (case d_expiresAt d of None \<Rightarrow> expiresAt s | Some v \<Rightarrow> v),
     retryCount := (case d_retryCount d of None \<Rightarrow> retryCount s | Some v \<Rightarrow> v),
     lastError := (case d_lastError d of None \<Rightarrow> lastError s | Some v \<Rightarrow> v),
     extractedText := (case d_extractedText d of None \<Rightarrow> extractedText s | Some v \<Rightarrow> v),
     feedback := (case d_feedback d of None \<Rightarrow> feedback s | Some v \<Rightarrow> v),
     completedAt := (case d_completedAt d of None \<Rightarrow> completedAt s | Some v \<Rightarrow> v),
     fileInfo := (case d_fileInfo d of None \<Rightarrow> fileInfo s | Some v \<Rightarrow> v) \<rparr>"

type_synonym sessionMap = "string \<rightharpoonup> session"

definition defaultExpirationTime :: int where
  "defaultExpirationTime = 60 * 60 * 1000"

text \<open>
  \<open>createSession(initialData)\<close>: \<open>uuid\<close> is the value \<open>uuidv4()\<close> would return,
  used when \<open>initialData.sessionId\<close> is missing or the empty string.
\<close>

definition createSession :: "int \<Rightarrow> string \<Rightarrow> sessionData \<Rightarrow> sessionMap \<Rightarrow> string \<times> sessionMap" where
  "createSession now uuid initialData m =
     (let sid = (case d_sessionId initialData of
                   None \<Rightarrow> uuid
                 | Some v \<Rightarrow> if v = [] then uuid else v);
          s = spread \<lparr> sessionId = sid, status = ''created'', createdAt = now,
                updatedAt = now, expiresAt = Some (now + defaultExpirationTime),
                retryCount = 0, lastError = None, extractedText = None,
                feedback = None, completedAt = None, fileInfo = None \<rparr> initialData
      in (sid, m(sid \<mapsto> s)))"

definition isSessionExpired :: "int \<Rightarrow> session \<Rightarrow> bool" where
  "isSessionExpired now s =
     (case expiresAt s of None \<Rightarrow> True | Some e \<Rightarrow> now > e)"

definition deleteSession :: "string \<Rightarrow> sessionMap \<Rightarrow> bool \<times> sessionMap" where
  "deleteSession sid m =
     (if sid = [] then (False, m) else (m sid \<noteq> None, m(sid := None)))"

definition getSession :: "int \<Rightarrow> string \<Rightarrow> sessionMap \<Rightarrow> session option \<times> sessionMap" where
  "getSession now sid m =
     (if sid = [] then (None, m)
      else case m sid of
             None \<Rightarrow> (None, m)
           | Some s \<Rightarrow>
               if isSessionExpired now s then (None, snd (deleteSession sid m))
               else (Some s, m))"

definition updateSession :: "int \<Rightarrow> string \<Rightarrow> sessionData \<Rightarrow> sessionMap \<Rightarrow> bool \<times> sessionMap" where
  "updateSession now sid updateData m =
     (if sid = [] then (False, m)
      else case m sid of
             None \<Rightarrow> (False, m)
           | Some s \<Rightarrow>
               if isSessionExpired now s then (False, m)
               else (True, m(sid \<mapsto> (spread s updateData)
                                  \<lparr> updatedAt := now, sessionId := sid \<rparr>)))"

definition sessionExists :: "int \<Rightarrow> string \<Rightarrow> sessionMap \<Rightarrow> bool \<times> sessionMap" where
  "sessionExists now sid m =
     (if sid = [] then (False, m)
      else case m sid of
             None \<Rightarrow> (False, m)
           | Some s \<Rightarrow>
               if isSessionExpired now s then (False, snd (deleteSession sid m))
               else (True, m))"

definition extendSession :: "int \<Rightarrow> string \<Rightarrow> int \<Rightarrow> sessionMap \<Rightarrow> bool \<times> sessionMap" where
  "extendSession now sid additionalTime m =
     (case m sid of
        None \<Rightarrow> (False, m)
      | Some s \<Rightarrow>
          if isSessionExpired now s then (False, m)
          else updateSession now sid
                 (noData \<lparr> d_expiresAt := Some (Some (the (expiresAt s) + additionalTime)) \<rparr>) m)"

section \<open>Session objects by reference\<close>

text \<open>
  \<open>getSession\<close> ends with \<open>return { ...session }\<close>: a new object with the fields of
  the stored one. To tell the two apart the map holds references here, \<open>objects\<close> is
  the heap, and \<open>nextRef\<close> the next free reference. \<open>assignFields a f\<close> is any
  assignment to fields of the object at \<open>a\<close>; \<open>contents\<close> reads the map through the
  heap, which gives the map of the previous section.
\<close>

record sessionHeap =
  sessionRefs :: "string \<rightharpoonup> nat"
  objects :: "nat \<Rightarrow> session"
  nextRef :: nat

definition getSessionRef :: "int \<Rightarrow> string \<Rightarrow> sessionHeap \<Rightarrow> nat option \<times> sessionHeap" where
  "getSessionRef now sid h =
     (if sid = [] then (None, h)
      else case sessionRefs h sid of
             None \<Rightarrow> (None, h)
           | Some a \<Rightarrow>
               if isSessionExpired now (objects h a)
               then (None, h \<lparr> sessionRefs := (sessionRefs h)(sid := None) \<rparr>)
               else (Some (nextRef h),
                     h \<lparr> objects := (objects h)(nextRef h := objects h a),
                         nextRef := Suc (nextRef h) \<rparr>))"

definition assignFields :: "nat \<Rightarrow> (session \<Rightarrow> session) \<Rightarrow> sessionHeap \<Rightarrow> sessionHeap" where
  "assignFields a f h = h \<lparr> objects := (objects h)(a := f (objects h a)) \<rparr>"

definition contents :: "sessionHeap \<Rightarrow> sessionMap" where
  "contents h = (\<lambda>sid. map_option (objects h) (sessionRefs h sid))"

definition allocated :: "sessionHeap \<Rightarrow> bool" where
  "allocated h = (\<forall>sid a. sessionRefs h sid = Some a \<longrightarrow> a < nextRef h)"

section \<open>SSEManager (src/backend/services/sseManager.js)\<close>

text \<open>
  A response object \<open>res\<close> is known by its identity (a number). What the manager reads
  of it are the flags \<open>destroyed\<close> and \<open>finished\<close>; what it does to it are the
  calls \<open>writeHead\<close>, \<open>write\<close> and \<open>end\<close>, each of which may throw:
  \<open>headOk\<close>, \<open>writeOk\<close> and \<open>endOk\<close> say whether such a call succeeds.
  \<open>written\<close> is the list of frames written so far: the event type and the data that
  \<open>sendEvent\<close> serialises.
\<close>

datatype frameData =
    Connected string int
  | EventData string int string
  | HeartbeatData int
  | SessionClosed string

type_synonym frame = "string \<times> frameData"

record stream =
  destroyed :: bool
  finished :: bool
  headOk :: bool
  writeOk :: bool
  endOk :: bool
  written :: "frame list"

text \<open>
  \<open>connections\<close> is the \<open>Map\<close> from session id to a \<open>Set\<close> of response objects;
  both keep insertion order, so they are lists: \<open>AList.update\<close> is \<open>Map.set\<close>,
  \<open>AList.delete\<close> is \<open>Map.delete\<close>, \<open>set_add\<close> is \<open>Set.add\<close> and \<open>removeAll\<close> is
  \<open>Set.delete\<close>.
\<close>

record sseManager =
  connections :: "(string \<times> nat list) list"
  streams :: "nat \<Rightarrow> stream"

definition res_writeHead :: "nat \<Rightarrow> sseManager \<Rightarrow> exn + sseManager" where
  "res_writeHead res st =
     (if headOk (streams st res) then Inr st else Inl (Error ''writeHead''))"

definition res_write :: "nat \<Rightarrow> frame \<Rightarrow> sseManager \<Rightarrow> exn + sseManager" where
  "res_write res f st =
     (let s = streams st res in
      if writeOk s
      then Inr (st \<lparr> streams := (streams st)(res := s \<lparr> written := written s @ [f] \<rparr>) \<rparr>)
      else Inl (Error ''write''))"

definition res_end :: "nat \<Rightarrow> sseManager \<Rightarrow> exn + sseManager" where
  "res_end res st =
     (let s = streams st res in
      if endOk s
      then Inr (st \<lparr> streams := (streams st)(res := s \<lparr> finished := True \<rparr>) \<rparr>)
      else Inl (Error ''end''))"

definition isDead :: "sseManager \<Rightarrow> nat \<Rightarrow> bool" where
  "isDead st res = (destroyed (streams st res) \<or> finished (streams st res))"

text \<open>
  \<open>sendEvent\<close> has its own \<open>try/catch\<close> around \<open>res.write\<close>: a failed write is
  logged and the call returns normally.
\<close>

definition sendEvent :: "nat \<Rightarrow> string \<Rightarrow> frameData \<Rightarrow> sseManager \<Rightarrow> exn + sseManager" where
  "sendEvent res eventType data st =
     (if isDead st res then Inr st
      else case res_write res (eventType, data) st of
             Inl error \<Rightarrow> Inr st
           | Inr st' \<Rightarrow> Inr st')"

definition set_add :: "nat \<Rightarrow> nat list \<Rightarrow> nat list" where
  "set_add res conns = (if res \<in> set conns then conns else conns @ [res])"

definition removeConnection :: "string \<Rightarrow> nat \<Rightarrow> sseManager \<Rightarrow> sseManager" where
  "removeConnection sid res st =
     (if sid = [] then st
      else case map_of (connections st) sid of
             None \<Rightarrow> st
           | Some sessionConnections \<Rightarrow>
               (let remaining = removeAll res sessionConnections in
                if length remaining = 0
                then st \<lparr> connections := AList.delete sid (connections st) \<rparr>
                else st \<lparr> connections := AList.update sid remaining (connections st) \<rparr>))"

text \<open>
  \<open>createConnection\<close> has no \<open>try\<close>: a throw of \<open>writeHead\<close> leaves through it,
  before anything is stored. The listeners it registers for \<open>close\<close> and \<open>error\<close>
  call \<open>removeConnection\<close> when the transport fires them: later calls of
  \<open>removeConnection\<close> in this model.
\<close>

definition createConnection :: "int \<Rightarrow> string \<Rightarrow> nat \<Rightarrow> sseManager \<Rightarrow> (exn + bool) \<times> sseManager" where
  "createConnection now sid res st =
     (if sid = [] then (Inr False, st)
      else case res_writeHead res st of
             Inl e \<Rightarrow> (Inl e, st)
           | Inr st1 \<Rightarrow>
               (case sendEvent res ''connected'' (Connected sid now) st1 of
                  Inl e \<Rightarrow> (Inl e, st1)
                | Inr st2 \<Rightarrow>
                    (let conns = (case map_of (connections st2) sid of
                                    None \<Rightarrow> []
                                  | Some c \<Rightarrow> c)
                     in (Inr True, st2 \<lparr> connections :=
                          AList.update sid (set_add res conns) (connections st2) \<rparr>))))"

text \<open>
  One round of the loop \<open>for (const res of sessionConnections)\<close> shared by
  \<open>broadcastToSession\<close> and \<open>sendHeartbeat\<close>: the body of the \<open>try\<close>, then the
  \<open>catch\<close> that pushes onto \<open>deadConnections\<close>.
\<close>

definition sendOrMark :: "string \<Rightarrow> frameData \<Rightarrow> nat \<Rightarrow> sseManager \<times> nat list \<Rightarrow> sseManager \<times> nat list" where
  "sendOrMark eventType data res acc =
     (case acc of (st, deadConnections) \<Rightarrow>
        (case (if \<not> destroyed (streams st res) \<and> \<not> finished (streams st res)
               then (case sendEvent res eventType data st of
                       Inl e \<Rightarrow> Inl e
                     | Inr st' \<Rightarrow> Inr (st', deadConnections))
               else Inr (st, deadConnections @ [res])) of
           Inl error \<Rightarrow> (st, deadConnections @ [res])
         | Inr acc' \<Rightarrow> acc'))"

definition broadcastToSession :: "int \<Rightarrow> string \<Rightarrow> string \<Rightarrow> string \<Rightarrow> sseManager \<Rightarrow> sseManager" where
  "broadcastToSession now sid eventType data st =
     (if sid = [] \<or> eventType = [] then st
      else case map_of (connections st) sid of
             None \<Rightarrow> st
           | Some sessionConnections \<Rightarrow>
               if length sessionConnections = 0 then st
               else (case fold (sendOrMark eventType (EventData sid now data))
                            sessionConnections (st, []) of
                       (st', deadConnections) \<Rightarrow>
                         fold (removeConnection sid) deadConnections st'))"

definition heartbeatSession :: "int \<Rightarrow> string \<times> nat list \<Rightarrow> sseManager \<Rightarrow> sseManager" where
  "heartbeatSession now entry st =
     (case entry of (sid, sessionConnections) \<Rightarrow>
        (case fold (sendOrMark ''heartbeat'' (HeartbeatData now)) sessionConnections (st, []) of
           (st', deadConnections) \<Rightarrow> fold (removeConnection sid) deadConnections st'))"

definition sendHeartbeat :: "int \<Rightarrow> sseManager \<Rightarrow> sseManager" where
  "sendHeartbeat now st = fold (heartbeatSession now) (connections st) st"

definition getConnectionCount :: "string \<Rightarrow> sseManager \<Rightarrow> nat" where
  "getConnectionCount sid st =
     (case map_of (connections st) sid of
        None \<Rightarrow> 0
      | Some sessionConnections \<Rightarrow> length sessionConnections)"

definition getTotalConnectionCount :: "sseManager \<Rightarrow> nat" where
  "getTotalConnectionCount st = fold (\<lambda>entry total. total + length (snd entry)) (connections st) 0"

text \<open>
  \<open>closeSessionConnections\<close>: \<open>closeOne\<close> is one round of its loop, where a throw of
  \<open>res.end\<close> is caught and logged.
\<close>

definition closeOne :: "string \<Rightarrow> nat \<Rightarrow> sseManager \<Rightarrow> sseManager" where
  "closeOne sid res st =
     (case (if \<not> destroyed (streams st res) \<and> \<not> finished (streams st res)
            then (case sendEvent res ''session_closed'' (SessionClosed sid) st of
                    Inl e \<Rightarrow> Inl (e, st)
                  | Inr st1 \<Rightarrow>
                      (case res_end res st1 of
                         Inl e \<Rightarrow> Inl (e, st1)
                       | Inr st2 \<Rightarrow> Inr st2))
            else Inr st) of
        Inl (error, st') \<Rightarrow> st'
      | Inr st' \<Rightarrow> st')"

definition closeSessionConnections :: "string \<Rightarrow> sseManager \<Rightarrow> sseManager" where
  "closeSessionConnections sid st =
     (case map_of (connections st) sid of
        None \<Rightarrow> st
      | Some sessionConnections \<Rightarrow>
          (let st' = fold (closeOne sid) sessionConnections st
           in st' \<lparr> connections := AList.delete sid (connections st') \<rparr>))"

text \<open>
  \<open>cleanupDeadConnections\<close>: \<open>cleanupSession\<close> is one round of the loop over the
  entries; the count is the number of connections removed.
\<close>

definition cleanupSession :: "string \<times> nat list \<Rightarrow> nat \<times> sseManager \<Rightarrow> nat \<times> sseManager" where
  "cleanupSession entry acc =
     (case entry of (sid, sessionConnections) \<Rightarrow>
      case acc of (cleanedCount, st) \<Rightarrow>
        (let deadConnections = filter (isDead st) sessionConnections;
             remaining = fold removeAll deadConnections sessionConnections;
             st1 = st \<lparr> connections := AList.update sid remaining (connections st) \<rparr>
         in (cleanedCount + length deadConnections,
             if length remaining = 0
             then st1 \<lparr> connections := AList.delete sid (connections st1) \<rparr>
             else st1)))"

definition cleanupDeadConnections :: "sseManager \<Rightarrow> nat \<times> sseManager" where
  "cleanupDeadConnections st = fold cleanupSession (connections st) (0, st)"

definition shutdown :: "sseManager \<Rightarrow> sseManager" where
  "shutdown st = fold (\<lambda>entry. closeSessionConnections (fst entry)) (connections st) st"

text \<open>
The registry invariant, and the registry as the constructor leaves it.
\<close>

definition noEmptySet :: "sseManager \<Rightarrow> bool" where
  "noEmptySet st = (\<forall>entry \<in> set (connections st). snd entry \<noteq> [])"

definition emptyManager :: sseManager where
  "emptyManager = \<lparr> connections = [],
     streams = (\<lambda>_. \<lparr> destroyed = False, finished = False, headOk = True,
                      writeOk = True, endOk = True, written = [] \<rparr>) \<rparr>"

section \<open>GeminiService.analyzeResumeStreaming\<close>

text \<open>
  One call of the generative model: the chunks it streams, then either the end of the
  stream or an error with its \<open>status\<close> (if it has one) and message, and the time the
  call took. \<open>thrownMessage\<close> is the message of the \<open>Error\<close> that the \<open>catch\<close> of
  \<open>analyzeResumeStreaming\<close> throws in its place. \<open>includes_str s sub\<close> is
  \<open>s.includes(sub)\<close>.
\<close>

record modelOutcome =
  chunks :: "string list"
  failure :: "(nat option \<times> string) option"
  duration :: nat

definition thrownMessage :: "nat option \<Rightarrow> string \<Rightarrow> string" where
  "thrownMessage errorStatus errorMessage =
     (if errorStatus = Some 404
      then ''AI model not found. Please check if the model name is correct and available.''
      else if errorStatus = Some 401
      then ''Unauthorized access to AI service. Please check your API key.''
      else if errorStatus = Some 429
      then ''Rate limit exceeded. Please try again later.''
      else if (case errorStatus of None \<Rightarrow> False | Some n \<Rightarrow> n \<ge> 500)
      then ''AI service temporarily unavailable. Please try again later.''
      else ''AI analysis failed: '' @ errorMessage)"

primrec includes_str :: "string \<Rightarrow> string \<Rightarrow> bool" where
  "includes_str [] sub = (sub = [])"
| "includes_str (c # cs) sub = (prefix sub (c # cs) \<or> includes_str cs sub)"

section \<open>The analysis workflow (src/backend/routes/sse.js, src/backend/routes/process.js)\<close>

text \<open>
  The module \<open>eventBroadcaster\<close> is outside the part of the program modelled here: a
  call of one of its \<open>broadcast...\<close> methods is recorded in the \<open>trace\<close> with its
  arguments, and is taken to return normally. The trace also records, in order, each \<open>setTimeout\<close> sleep, each
  call of the model, each \<open>reinitializeModel\<close> and each start of
  \<open>processResumeWorkflow\<close>. \<open>clock\<close> is the time \<open>new Date()\<close> would give; sleeping and
  calling the model advance it.
\<close>

record errorDetails =
  code :: string
  stage :: string
  retryable :: bool
  attempts :: "nat option"

datatype event =
    RetryStarted nat "string option"
  | AnalysisStarted
  | AnalysisStreaming string
  | AnalysisCompleted json
  | ErrorEvent string errorDetails

datatype action =
    Broadcast string event
  | Sleep nat
  | Analyze nat
  | Reinitialize
  | StartWorkflow string

record workflow =
  sessions :: sessionMap
  trace :: "action list"
  clock :: int

text \<open>
  What the workflow is given: \<open>JSON.parse\<close>, the outcome of the model call made with a
  given \<open>retryCount\<close>, and whether \<open>reinitializeModel\<close> succeeds there.
\<close>

record services =
  JSON_parse :: "string \<Rightarrow> json option"
  modelRun :: "nat \<Rightarrow> modelOutcome"
  reinitOk :: "nat \<Rightarrow> bool"

definition sessionManager_updateSession :: "string \<Rightarrow> sessionData \<Rightarrow> workflow \<Rightarrow> workflow" where
  "sessionManager_updateSession sid d st =
     st \<lparr> sessions := snd (updateSession (clock st) sid d (sessions st)) \<rparr>"

definition broadcast :: "string \<Rightarrow> event \<Rightarrow> workflow \<Rightarrow> workflow" where
  "broadcast sid ev st = st \<lparr> trace := trace st @ [Broadcast sid ev] \<rparr>"

definition sleep :: "nat \<Rightarrow> workflow \<Rightarrow> workflow" where
  "sleep delay st = st \<lparr> trace := trace st @ [Sleep delay], clock := clock st + int delay \<rparr>"

definition exnMessage :: "exn \<Rightarrow> string" where
  "exnMessage e = (case e of Error m \<Rightarrow> m | TypeError \<Rightarrow> ''TypeError'' | SyntaxError \<Rightarrow> ''SyntaxError'')"

definition analyzeResumeStreaming ::
  "services \<Rightarrow> nat \<Rightarrow> (string \<Rightarrow> workflow \<Rightarrow> workflow) \<Rightarrow> workflow \<Rightarrow> (string + json) \<times> workflow" where
  "analyzeResumeStreaming env n onChunk st =
     (let out = modelRun env n;
          st1 = st \<lparr> trace := trace st @ [Analyze n] \<rparr>;
          st2 = fold onChunk (chunks out) st1;
          st3 = st2 \<lparr> clock := clock st2 + int (duration out) \<rparr>
      in case failure out of
           Some (errorStatus, errorMessage) \<Rightarrow> (Inl (thrownMessage errorStatus errorMessage), st3)
         | None \<Rightarrow>
             (case parseResponse (JSON_parse env) (concat (chunks out)) of
                Inl e \<Rightarrow> (Inl (thrownMessage None (exnMessage e)), st3)
              | Inr fb \<Rightarrow> (Inr fb, st3)))"

definition maxRetries :: nat where
  "maxRetries = 3"

definition backoff :: "nat \<Rightarrow> nat" where
  "backoff n = min (1000 * 2 ^ (n - 1)) 10000"

text \<open>
  \<open>analyzeWithRetry\<close> of the upload route (src/backend/routes/sse.js, lines 520 to
  595), the workflow behind \<open>POST /api/upload-and-process\<close>. \<open>beginAttempt\<close> is the
  \<open>if (retryCount > 0)\<close> at the head of its \<open>try\<close>, \<open>completeAnalysis\<close> the end of
  the \<open>try\<close>, and \<open>failAnalysis\<close> the last \<open>else\<close> of its \<open>catch\<close>. The test
  \<open>typeof geminiService.reinitializeModel === 'function'\<close> holds of every
  \<open>GeminiService\<close> and is left out. The parameter \<open>n\<close> is \<open>retryCount\<close>.
\<close>

definition beginAttempt :: "string \<Rightarrow> nat \<Rightarrow> workflow \<Rightarrow> workflow" where
  "beginAttempt sid n st =
     (if n > 0
      then sleep (backoff n)
             (broadcast sid (RetryStarted n (Some ''analysis''))
               (sessionManager_updateSession sid
                  (noData \<lparr> d_status := Some ''retrying'', d_retryCount := Some n \<rparr>) st))
      else broadcast sid AnalysisStarted
             (sessionManager_updateSession sid (noData \<lparr> d_status := Some ''analyzing'' \<rparr>) st))"

definition completeAnalysis :: "string \<Rightarrow> json \<Rightarrow> workflow \<Rightarrow> workflow" where
  "completeAnalysis sid fb st =
     broadcast sid (AnalysisCompleted fb)
       (sessionManager_updateSession sid
          (noData \<lparr> d_status := Some ''completed'', d_feedback := Some (Some fb),
                    d_completedAt := Some (Some (clock st)) \<rparr>) st)"

definition failAnalysis :: "string \<Rightarrow> string \<Rightarrow> bool \<Rightarrow> nat \<Rightarrow> workflow \<Rightarrow> workflow" where
  "failAnalysis sid message isRetryableError n st =
     broadcast sid
       (ErrorEvent message \<lparr> code = ''AI_ANALYSIS_FAILED'', stage = ''analysis'',
          retryable = isRetryableError, attempts = Some (n + 1) \<rparr>)
       (sessionManager_updateSession sid
          (noData \<lparr> d_status := Some ''error'', d_lastError := Some (Some message),
                    d_retryCount := Some (n + 1) \<rparr>) st)"

definition isRetryable :: "string \<Rightarrow> bool" where
  "isRetryable message =
     (\<not> (includes_str message ''model not found'' \<or> includes_str message ''Unauthorized''
          \<or> includes_str message ''API key''))"

definition reinitializeModel :: "services \<Rightarrow> nat \<Rightarrow> workflow \<Rightarrow> bool \<times> workflow" where
  "reinitializeModel env n st = (reinitOk env n, st \<lparr> trace := trace st @ [Reinitialize] \<rparr>)"

function analyzeWithRetry :: "services \<Rightarrow> string \<Rightarrow> nat \<Rightarrow> workflow \<Rightarrow> workflow" where
  "analyzeWithRetry env sid n st =
     (case analyzeResumeStreaming env n (\<lambda>chunk. broadcast sid (AnalysisStreaming chunk))
             (beginAttempt sid n st) of
        (Inr fb, st2) \<Rightarrow> completeAnalysis sid fb st2
      | (Inl message, st2) \<Rightarrow>
          (let isRetryableError = isRetryable message in
           if includes_str message ''model not found''
           then (case reinitializeModel env n st2 of
                   (reinitSuccess, st3) \<Rightarrow>
                     if reinitSuccess \<and> n < maxRetries
                     then analyzeWithRetry env sid (n + 1) st3
                     else if isRetryableError \<and> n < maxRetries
                     then analyzeWithRetry env sid (n + 1) st3
                     else failAnalysis sid message isRetryableError n st3)
           else if isRetryableError \<and> n < maxRetries
           then analyzeWithRetry env sid (n + 1) st2
           else failAnalysis sid message isRetryableError n st2))"
  by pat_completeness auto
termination
  by (relation "measure (\<lambda>(env, sid, n, st). Suc maxRetries - n)") auto

declare analyzeWithRetry.simps [simp del]

text \<open>
  \<open>analyzeWithRetry\<close> of the process route (src/backend/routes/process.js, lines
  111 to 152): it never writes to the session, and retries every failure.
\<close>

definition beginAttempt_process :: "string \<Rightarrow> nat \<Rightarrow> workflow \<Rightarrow> workflow" where
  "beginAttempt_process sid n st =
     (if n > 0
      then sleep (backoff n) (broadcast sid (RetryStarted n (Some ''analysis'')) st)
      else broadcast sid AnalysisStarted st)"

function analyzeWithRetry_process :: "services \<Rightarrow> string \<Rightarrow> nat \<Rightarrow> workflow \<Rightarrow> workflow" where
  "analyzeWithRetry_process env sid n st =
     (case analyzeResumeStreaming env n (\<lambda>chunk. broadcast sid (AnalysisStreaming chunk))
             (beginAttempt_process sid n st) of
        (Inr fb, st2) \<Rightarrow> broadcast sid (AnalysisCompleted fb) st2
      | (Inl message, st2) \<Rightarrow>
          if n < maxRetries
          then analyzeWithRetry_process env sid (n + 1) st2
          else broadcast sid
                 (ErrorEvent ''AI analysis failed after multiple attempts''
                    \<lparr> code = ''AI_ANALYSIS_FAILED'', stage = ''analysis'',
                      retryable = False, attempts = Some (n + 1) \<rparr>) st2)"
  by pat_completeness auto
termination
  by (relation "measure (\<lambda>(env, sid, n, st). Suc maxRetries - n)") auto

declare analyzeWithRetry_process.simps [simp del]

text \<open>
  The two manual retry routes: \<open>POST /api/events/:sessionId/retry\<close>
  (src/backend/routes/sse.js, lines 131 to 188) and
  \<open>POST /api/process/:sessionId/retry\<close> (src/backend/routes/process.js). A reply is the HTTP
  status with the \<open>code\<close> of an error body, or the \<open>retryCount\<close> of a success body.
\<close>

datatype reply = JsonError nat string | RetryAccepted nat

definition retry_events :: "string \<Rightarrow> workflow \<Rightarrow> reply \<times> workflow" where
  "retry_events sid st =
     (if sid = [] then (JsonError 400 ''INVALID_SESSION_ID'', st)
      else case getSession (clock st) sid (sessions st) of
             (None, m) \<Rightarrow> (JsonError 404 ''SESSION_NOT_FOUND'', st \<lparr> sessions := m \<rparr>)
           | (Some s, m) \<Rightarrow>
               if status s \<noteq> ''error''
               then (JsonError 400 ''INVALID_SESSION_STATE'', st \<lparr> sessions := m \<rparr>)
               else (let newRetryCount = retryCount s + 1 in
                     if newRetryCount > 3
                     then (JsonError 400 ''MAX_RETRIES_EXCEEDED'', st \<lparr> sessions := m \<rparr>)
                     else (RetryAccepted newRetryCount,
                           broadcast sid (RetryStarted newRetryCount None)
                             (sessionManager_updateSession sid
                                (noData \<lparr> d_status := Some ''retrying'',
                                          d_retryCount := Some newRetryCount,
                                          d_lastError := Some None \<rparr>)
                                (st \<lparr> sessions := m \<rparr>)))))"

definition retry_process :: "string \<Rightarrow> workflow \<Rightarrow> reply \<times> workflow" where
  "retry_process sid st =
     (case getSession (clock st) sid (sessions st) of
        (None, m) \<Rightarrow> (JsonError 404 ''SESSION_NOT_FOUND'', st \<lparr> sessions := m \<rparr>)
      | (Some s, m) \<Rightarrow>
          (let st1 = sessionManager_updateSession sid
                       (noData \<lparr> d_status := Some ''retrying'', d_lastError := Some None,
                                 d_retryCount := Some (retryCount s + 1) \<rparr>)
                       (st \<lparr> sessions := m \<rparr>)
           in (RetryAccepted (retryCount s + 1),
               st1 \<lparr> trace := trace st1 @ [StartWorkflow sid] \<rparr>)))"

section \<open>Observations\<close>

text \<open>
  \<open>timing\<close> keeps the sleeps and the model calls of a trace. \<open>attemptSchedule n\<close> is
  what the attempt numbered \<open>n\<close> may add to it: the delay
  \<open>min(1000 * 2^(n-1), 10000)\<close> when \<open>n \<ge> 1\<close>, then the call; \<open>schedule n m\<close> is
  that of the attempts \<open>n\<close> to \<open>m\<close>.
\<close>

fun isTiming :: "action \<Rightarrow> bool" where
  "isTiming (Sleep d) = True"
| "isTiming (Analyze n) = True"
| "isTiming _ = False"

definition timing :: "workflow \<Rightarrow> action list" where
  "timing st = filter isTiming (trace st)"

definition attemptSchedule :: "nat \<Rightarrow> action list" where
  "attemptSchedule n =
     (if n \<ge> 1 then [Sleep (min (1000 * 2 ^ (n - 1)) 10000)] else []) @ [Analyze n]"

definition schedule :: "nat \<Rightarrow> nat \<Rightarrow> action list" where
  "schedule n m = concat (map attemptSchedule [n..<Suc m])"

text \<open>
  \<open>afterAttempt\<close> is the state in which the \<open>await\<close> of the model call returns or
  throws. \<open>endsInError\<close> says that from \<open>before\<close> the run only reports the error: one
  error event whose payload has \<open>retryable: false\<close>, no time passing, and the session,
  if it is there and has not expired, in status \<open>error\<close> with the message.
\<close>

definition afterAttempt :: "services \<Rightarrow> string \<Rightarrow> nat \<Rightarrow> workflow \<Rightarrow> workflow" where
  "afterAttempt env sid n st =
     snd (analyzeResumeStreaming env n (\<lambda>chunk. broadcast sid (AnalysisStreaming chunk))
            (beginAttempt sid n st))"

definition endsInError :: "string \<Rightarrow> string \<Rightarrow> workflow \<Rightarrow> workflow \<Rightarrow> bool" where
  "endsInError sid msg before after =
     ((\<exists>d. trace after = trace before @ [Broadcast sid (ErrorEvent msg d)] \<and> \<not> retryable d) \<and>
      clock after = clock before \<and>
      (\<forall>s. sessions before sid = Some s \<and> \<not> isSessionExpired (clock before) s \<and> sid \<noteq> [] \<longrightarrow>
           (\<exists>s'. sessions after sid = Some s' \<and> status s' = ''error'' \<and> lastError s' = Some msg)))"

section \<open>Example data\<close>

text \<open>
  A session that expires at time 1000; a session after extraction, its workflow state
  at time 0, after completion, and after an error; a model that always answers 429, one
  that answers 404 to the first call and then streams nothing, one that always answers
  401; a heap holding one session; a registry with two streams attached to one session,
  the same with the first stream's \<open>write\<close> throwing; and a \<open>JSON.parse\<close> that knows
  one text.
\<close>

definition demoSession :: session where
  "demoSession = \<lparr> sessionId = ''s1'', status = ''uploaded'', createdAt = 0,
     updatedAt = 0, expiresAt = Some 1000, retryCount = 0, lastError = None,
     extractedText = None, feedback = None, completedAt = None, fileInfo = None \<rparr>"

definition extractedSession :: session where
  "extractedSession = \<lparr> sessionId = ''s1'', status = ''extracted'', createdAt = 0,
     updatedAt = 0, expiresAt = Some 3600000, retryCount = 0, lastError = None,
     extractedText = Some ''Hello'', feedback = None, completedAt = None, fileInfo = None \<rparr>"

definition demoWorkflow :: workflow where
  "demoWorkflow = \<lparr> sessions = [''s1'' \<mapsto> extractedSession], trace = [], clock = 0 \<rparr>"

definition completedWorkflow :: workflow where
  "completedWorkflow = \<lparr> sessions = [''s1'' \<mapsto> extractedSession \<lparr> status := ''completed'' \<rparr>],
     trace = [], clock = 0 \<rparr>"

definition erroredWorkflow :: workflow where
  "erroredWorkflow = \<lparr> sessions = [''s1'' \<mapsto> extractedSession \<lparr> status := ''error'',
       retryCount := 1, lastError := Some ''Rate limit exceeded. Please try again later.'' \<rparr>],
     trace = [], clock = 0 \<rparr>"

definition rateLimited :: services where
  "rateLimited = \<lparr> JSON_parse = (\<lambda>s. None),
     modelRun = (\<lambda>n. \<lparr> chunks = [], failure = Some (Some 429, ''quota''), duration = 100 \<rparr>),
     reinitOk = (\<lambda>n. True) \<rparr>"

definition notFoundOnce :: services where
  "notFoundOnce = \<lparr> JSON_parse = (\<lambda>s. None),
     modelRun = (\<lambda>n. \<lparr> chunks = [], failure = (if n = 0 then Some (Some 404, ''no model'') else None),
                        duration = 100 \<rparr>),
     reinitOk = (\<lambda>n. True) \<rparr>"

definition unauthorized :: services where
  "unauthorized = \<lparr> JSON_parse = (\<lambda>s. None),
     modelRun = (\<lambda>n. \<lparr> chunks = [], failure = Some (Some 401, ''bad key''), duration = 100 \<rparr>),
     reinitOk = (\<lambda>n. True) \<rparr>"

definition demoHeap :: sessionHeap where
  "demoHeap = \<lparr> sessionRefs = [''s1'' \<mapsto> 0], objects = (\<lambda>_. extractedSession), nextRef = 1 \<rparr>"

definition demoManager :: sseManager where
  "demoManager = emptyManager \<lparr> connections := [(''s1'', [1, 2])] \<rparr>"

definition brokenPipe :: sseManager where
  "brokenPipe = \<lparr> connections = [(''s1'', [1, 2])],
     streams = (\<lambda>res. \<lparr> destroyed = False, finished = False, headOk = True,
                        writeOk = (res \<noteq> 1), endOk = True, written = [] \<rparr>) \<rparr>"

definition goodFeedback :: json where
  "goodFeedback = JObj [
     (''clarity'', JObj [(''score'', JNum 8), (''suggestions'', JArr [])]),
     (''grammar'', JObj [(''score'', JNum 7), (''corrections'', JArr [])]),
     (''skills'', JObj [(''relevantSkills'', JArr [JStr ''SQL''])]),
     (''improvements'', JArr [])]"

definition demoParse :: "string \<Rightarrow> json option" where
  "demoParse s = (if s = ''{ok}'' then Some goodFeedback else None)"

chapter \<open>Properties\<close>

section \<open>Response parsing\<close>

lemma indexOf_None_iff: "indexOf c s = None \<longleftrightarrow> c \<notin> set s"
  by (induction s) auto

lemma lastIndexOf_None_iff: "lastIndexOf c s = None \<longleftrightarrow> c \<notin> set s"
  by (induction s) (auto split: option.splits)

lemma indexOf_less: "indexOf c s = Some i \<Longrightarrow> i < length s"
  by (induction s arbitrary: i) (auto split: if_splits)

lemma lastIndexOf_less: "lastIndexOf c s = Some i \<Longrightarrow> i < length s"
  by (induction s arbitrary: i) (auto split: option.splits if_splits)

lemma indexOf_take: "indexOf c s = Some i \<Longrightarrow> c \<notin> set (take i s)"
  by (induction s arbitrary: i) (auto split: if_splits)

lemma indexOf_append_left:
  "c \<notin> set a \<Longrightarrow> indexOf c (a @ m) = map_option (\<lambda>i. length a + i) (indexOf c m)"
proof (induction a)
  case Nil
  show ?case by (cases "indexOf c m") simp_all
next
  case (Cons x a)
  then show ?case by (cases "indexOf c m") auto
qed

lemma indexOf_append_right:
  "c \<notin> set b \<Longrightarrow> indexOf c (m @ b) = indexOf c m"
  by (induction m) (auto simp: indexOf_None_iff[THEN iffD2])

lemma lastIndexOf_append_left:
  "c \<notin> set a \<Longrightarrow> lastIndexOf c (a @ m) = map_option (\<lambda>i. length a + i) (lastIndexOf c m)"
proof (induction a)
  case Nil
  show ?case by (cases "lastIndexOf c m") simp_all
next
  case (Cons x a)
  then show ?case by (cases "lastIndexOf c m") auto
qed

lemma lastIndexOf_append_right:
  "c \<notin> set b \<Longrightarrow> lastIndexOf c (m @ b) = lastIndexOf c m"
  by (induction m) (auto simp: lastIndexOf_None_iff[THEN iffD2] split: option.splits)

lemma trim_decomp:
  "\<exists>a b. s = a @ trim s @ b \<and> (\<forall>c\<in>set a. isWhiteSpace c) \<and> (\<forall>c\<in>set b. isWhiteSpace c)"
proof -
  let ?t = "dropWhile isWhiteSpace s"
  have 1: "s = takeWhile isWhiteSpace s @ ?t" by simp
  have 2: "?t = trim s @ rev (takeWhile isWhiteSpace (rev ?t))"
    unfolding trim_def by (metis rev_append rev_rev_ident takeWhile_dropWhile_id)
  have 3: "\<forall>c\<in>set (takeWhile isWhiteSpace s). isWhiteSpace c"
    by (auto dest: set_takeWhileD)
  have 4: "\<forall>c\<in>set (rev (takeWhile isWhiteSpace (rev ?t))). isWhiteSpace c"
    by (auto dest: set_takeWhileD)
  from 1 2 have "s = takeWhile isWhiteSpace s @ trim s @ rev (takeWhile isWhiteSpace (rev ?t))"
    by metis
  with 3 4 show ?thesis by blast
qed

lemma brace_not_space: "\<not> isWhiteSpace CHR ''{''" "\<not> isWhiteSpace CHR ''}''"
  by (simp_all add: isWhiteSpace_def)

lemma jsonBlock_pad:
  assumes a: "\<forall>c\<in>set a. isWhiteSpace c" and b: "\<forall>c\<in>set b. isWhiteSpace c"
  shows "jsonBlock (a @ m @ b) = jsonBlock m"
proof -
  have na: "CHR ''{'' \<notin> set a" "CHR ''}'' \<notin> set a" using a brace_not_space by auto
  have nb: "CHR ''{'' \<notin> set b" "CHR ''}'' \<notin> set b" using b brace_not_space by auto
  have i: "indexOf CHR ''{'' (a @ m @ b) = map_option (\<lambda>i. length a + i) (indexOf CHR ''{'' m)"
    using na nb by (simp add: indexOf_append_left indexOf_append_right)
  have j: "lastIndexOf CHR ''}'' (a @ m @ b) = map_option (\<lambda>i. length a + i) (lastIndexOf CHR ''}'' m)"
    using na nb by (simp add: lastIndexOf_append_left lastIndexOf_append_right)
  show ?thesis
  proof (cases "indexOf CHR ''{'' m")
    case None
    then show ?thesis using i by (simp add: jsonBlock_def)
  next
    case (Some i0)
    note Si = Some
    show ?thesis
    proof (cases "lastIndexOf CHR ''}'' m")
      case None
      then show ?thesis using i j Si by (simp add: jsonBlock_def)
    next
      case (Some j0)
      have "j0 < length m" using Some by (rule lastIndexOf_less)
      then have "take (Suc j0 - i0) (drop i0 (m @ b)) = take (Suc j0 - i0) (drop i0 m)"
        by simp
      then show ?thesis using i j Si Some
        by (simp add: jsonBlock_def Suc_diff_le)
    qed
  qed
qed

lemma jsonBlock_trim: "jsonBlock (trim s) = jsonBlock s"
proof -
  obtain a b where "s = a @ trim s @ b" "\<forall>c\<in>set a. isWhiteSpace c" "\<forall>c\<in>set b. isWhiteSpace c"
    using trim_decomp by blast
  then show ?thesis using jsonBlock_pad[of a b "trim s"] by simp
qed

lemma getProp_Inr_nonobj:
  "(\<And>kvs. v \<noteq> JObj kvs) \<Longrightarrow> v \<noteq> JNull \<Longrightarrow> getProp v k = Inr None"
  by (cases v) (auto simp: getProp_def)

lemma validate_is_object:
  assumes "validateFeedbackStructure v = Inr u"
  shows "\<exists>kvs. v = JObj kvs"
proof (cases v)
  case (JObj kvs) then show ?thesis by simp
qed (use assms in \<open>auto simp: validateFeedbackStructure_def getProp_def truthy_def\<close>)

lemma substring_ordered: "i \<le> j \<Longrightarrow> substring s i (Suc j) = take (Suc j - i) (drop i s)"
  by (simp add: substring_def max_def min_def)

lemma substring_swapped_no_brace:
  assumes "indexOf c s = Some i" and "j < i"
  shows "c \<notin> set (substring s i (Suc j))"
proof -
  have "substring s i (Suc j) = take (i - Suc j) (drop (Suc j) s)"
    using assms(2) by (simp add: substring_def max_def min_def)
  moreover have "set (take (i - Suc j) (drop (Suc j) s)) \<subseteq> set (take i s)"
  proof -
    have "take i s = take (Suc j) s @ take (i - Suc j) (drop (Suc j) s)"
      using assms(2) by (metis Suc_leI le_add_diff_inverse take_add)
    then show ?thesis by auto
  qed
  ultimately show ?thesis using indexOf_take[OF assms(1)] by auto
qed

lemma parseResponse_returns: "\<exists>fb. parseResponse P r = Inr fb"
  by (cases "parseBody P r") (simp_all add: parseResponse_def)

text \<open>
  Claim C8. For every raw response, \<open>parseResponse\<close> returns normally, and what it
  returns is what the specification says: the parsed text between the first \<open>{\<close> and
  the last \<open>}\<close> when that text parses and validates, the fixed fallback structure in
  every other case. \<open>JSON.parse\<close> is any function that yields an object only for a
  text that contains \<open>{\<close>; this matters when the last \<open>}\<close> stands before the first
  \<open>{\<close>, where \<open>substring\<close> swaps its arguments and the text between the two is
  parsed.
\<close>

theorem C8_parseResponse_refines:
  assumes parse: "\<forall>s kvs. parse s = Some (JObj kvs) \<longrightarrow> CHR ''{'' \<in> set s"
  shows "parseResponse parse response = Inr (parseResponse_spec parse response)"
proof -
  let ?m = "trim response"
  have blk: "parseResponse_spec parse response =
     (case jsonBlock ?m of
        None \<Rightarrow> getFallbackFeedback
      | Some b \<Rightarrow>
          (case parse b of
             None \<Rightarrow> getFallbackFeedback
           | Some v \<Rightarrow> if isValid v then v else getFallbackFeedback))"
    by (simp add: parseResponse_spec_def jsonBlock_trim)
  show ?thesis
  proof (cases "indexOf CHR ''{'' ?m")
    case None
    then show ?thesis
      by (simp add: parseResponse_def parseBody_def blk jsonBlock_def)
  next
    case (Some i)
    note Si = Some
    show ?thesis
    proof (cases "lastIndexOf CHR ''}'' ?m")
      case None
      then show ?thesis using Si
        by (simp add: parseResponse_def parseBody_def blk jsonBlock_def)
    next
      case (Some j)
      show ?thesis
      proof (cases "i \<le> j")
        case True
        then show ?thesis using Si Some
          by (auto simp: parseResponse_def parseBody_def blk jsonBlock_def
                substring_ordered isValid_def split: option.splits sum.splits)
      next
        case False
        then have ji: "j < i" by simp
        have nb: "CHR ''{'' \<notin> set (substring ?m i (Suc j))"
          using substring_swapped_no_brace[OF Si ji] .
        have "parseBody parse response = Inr v \<Longrightarrow> False" for v
        proof -
          assume pb: "parseBody parse response = Inr v"
          then have p: "parse (substring ?m i (Suc j)) = Some v"
            and val: "validateFeedbackStructure v = Inr ()"
            using Si Some by (auto simp: parseBody_def split: option.splits sum.splits)
          from validate_is_object[OF val] obtain kvs where "v = JObj kvs" by blast
          with p parse nb show False by blast
        qed
        then have "\<exists>e. parseBody parse response = Inl e"
          by (cases "parseBody parse response") auto
        then show ?thesis using Si Some False
          by (auto simp: parseResponse_def blk jsonBlock_def)
      qed
    qed
  qed
qed

theorem C8_witness:
  "parseResponse demoParse ''Here you go: {ok} Thanks!'' = Inr goodFeedback \<and>
   parseResponse demoParse ''no json here'' = Inr getFallbackFeedback \<and>
   parseResponse demoParse ''} backwards {'' = Inr getFallbackFeedback"
proof -
  have p: "\<forall>s kvs. demoParse s = Some (JObj kvs) \<longrightarrow> CHR ''{'' \<in> set s"
    by (simp add: demoParse_def)
  have v: "isValid goodFeedback"
    by (simp add: isValid_def validateFeedbackStructure_def goodFeedback_def field_def
        getProp_def truthy_def isArray_def)
  have 1: "parseResponse_spec demoParse ''Here you go: {ok} Thanks!'' = goodFeedback"
    using v by (simp add: parseResponse_spec_def jsonBlock_def demoParse_def)
  have 2: "parseResponse_spec demoParse ''no json here'' = getFallbackFeedback"
    by (simp add: parseResponse_spec_def jsonBlock_def)
  have 3: "parseResponse_spec demoParse ''} backwards {'' = getFallbackFeedback"
    by (simp add: parseResponse_spec_def jsonBlock_def)
  show ?thesis
    using C8_parseResponse_refines[OF p, of "''Here you go: {ok} Thanks!''"]
      C8_parseResponse_refines[OF p, of "''no json here''"]
      C8_parseResponse_refines[OF p, of "''} backwards {''"] 1 2 3
    by simp
qed

section \<open>Lazy expiration\<close>

lemma getSession_expired:
  assumes "sid \<noteq> []" "m sid = Some s" "isSessionExpired now s"
  shows "getSession now sid m = (None, m(sid := None))"
  using assms by (simp add: getSession_def deleteSession_def)

lemma updateSession_expired:
  assumes "m sid = Some s" "isSessionExpired now s"
  shows "updateSession now sid d m = (False, m)"
  using assms by (simp add: updateSession_def)

text \<open>
  Claim C6, as stated: for a stored session whose \<open>expiresAt\<close> is in the past, both
  \<open>getSession\<close> and \<open>updateSession\<close> evict the entry. \<open>updateSession\<close> does not: at time
  2000 the session that expired at 1000 is still in the map after the call.
\<close>

theorem C6_update_keeps_expired_entry:
  "isSessionExpired 2000 demoSession \<and>
   snd (updateSession 2000 ''s1'' (noData \<lparr> d_status := Some ''extracting'' \<rparr>)
          [''s1'' \<mapsto> demoSession]) ''s1'' = Some demoSession"
  by (simp add: isSessionExpired_def demoSession_def updateSession_def)

text \<open>
  Claim C6, amended: for a session stored under a non-empty identifier whose
  \<open>expiresAt\<close> lies in the past (or is missing), \<open>getSession\<close> returns absent and
  removes the entry from the map, with no sweep needed; \<open>updateSession\<close> reports
  failure and leaves the map exactly as it was, so the expired entry stays until
  \<open>getSession\<close>, \<open>sessionExists\<close> or the sweep removes it.
\<close>

theorem C6_expired_get_evicts_update_refuses:
  assumes "sid \<noteq> []" and "m sid = Some s" and "isSessionExpired now s"
  shows "getSession now sid m = (None, m(sid := None)) \<and>
         updateSession now sid d m = (False, m)"
  using assms by (simp add: getSession_expired updateSession_expired)

theorem C6_witness:
  "getSession 2000 ''s1'' [''s1'' \<mapsto> demoSession] = (None, [''s1'' \<mapsto> demoSession](''s1'' := None)) \<and>
   updateSession 2000 ''s1'' noData [''s1'' \<mapsto> demoSession] = (False, [''s1'' \<mapsto> demoSession])"
  using C6_expired_get_evicts_update_refuses [of "''s1''" "[''s1'' \<mapsto> demoSession]" demoSession 2000 noData]
  by (simp add: isSessionExpired_def demoSession_def)

section \<open>The copy returned by getSession\<close>

lemma getSessionRef_copy:
  assumes "allocated h" and "sid \<noteq> []" and "sessionRefs h sid = Some a"
    and "\<not> isSessionExpired now (objects h a)"
  shows "getSessionRef now sid h =
           (Some (nextRef h),
            h \<lparr> objects := (objects h)(nextRef h := objects h a), nextRef := Suc (nextRef h) \<rparr>)"
  using assms by (simp add: getSessionRef_def)

lemma contents_fresh:
  assumes "allocated h"
  shows "contents (h \<lparr> objects := (objects h)(nextRef h := v), nextRef := k \<rparr>) = contents h"
proof
  fix sid
  show "contents (h \<lparr> objects := (objects h)(nextRef h := v), nextRef := k \<rparr>) sid = contents h sid"
  proof (cases "sessionRefs h sid")
    case None
    then show ?thesis by (simp add: contents_def)
  next
    case (Some b)
    then have "b < nextRef h" using assms by (simp add: allocated_def)
    then show ?thesis using Some by (simp add: contents_def)
  qed
qed

text \<open>
  The map of references, read through the heap, behaves as the map of values of the
  session manager: \<open>getSession\<close> on the contents gives the contents of the object
  returned and of the heap left.
\<close>

lemma getSessionRef_refines:
  assumes "allocated h"
  shows "getSession now sid (contents h) =
           (map_option (objects (snd (getSessionRef now sid h))) (fst (getSessionRef now sid h)),
            contents (snd (getSessionRef now sid h)))"
proof (cases "sid = [] \<or> sessionRefs h sid = None")
  case True
  then show ?thesis by (auto simp: getSession_def getSessionRef_def contents_def)
next
  case False
  then obtain a where a: "sessionRefs h sid = Some a" and sid: "sid \<noteq> []" by auto
  show ?thesis
  proof (cases "isSessionExpired now (objects h a)")
    case True
    then show ?thesis using a sid
      by (auto simp: getSession_def getSessionRef_def contents_def deleteSession_def)
  next
    case False
    have "contents (snd (getSessionRef now sid h)) = contents h"
      using getSessionRef_copy[OF assms sid a False] contents_fresh[OF assms] by simp
    then show ?thesis using a sid False getSessionRef_copy[OF assms sid a False]
      by (simp add: getSession_def contents_def)
  qed
qed

text \<open>
  Claim C9. For a stored session that has not expired, \<open>getSession\<close> returns a
  reference \<open>c\<close> to a new object: \<open>c\<close> differs from the stored reference and no key
  of the map refers to it, its fields equal the fields of the stored object, and the
  map is as before. Whatever is then assigned to fields of the object at \<open>c\<close>, the
  sessions the map holds are unchanged. The copy is one level deep: a field that is
  itself a reference (\<open>fileInfo\<close>) has the same value in both objects.
\<close>

theorem C9_getSession_returns_fresh_copy:
  assumes "allocated h" and "sid \<noteq> []" and "sessionRefs h sid = Some a"
    and "\<not> isSessionExpired now (objects h a)"
  shows "\<exists>c h'. getSessionRef now sid h = (Some c, h') \<and>
           c \<noteq> a \<and> (\<forall>k. sessionRefs h' k \<noteq> Some c) \<and>
           objects h' c = objects h a \<and>
           contents h' = contents h \<and>
           (\<forall>f. contents (assignFields c f h') = contents h \<and>
                sessionRefs (assignFields c f h') = sessionRefs h)"
proof -
  let ?c = "nextRef h"
  let ?h' = "h \<lparr> objects := (objects h)(?c := objects h a), nextRef := Suc ?c \<rparr>"
  have g: "getSessionRef now sid h = (Some ?c, ?h')" using assms by (rule getSessionRef_copy)
  have lt: "a < ?c" using assms(1,3) by (simp add: allocated_def)
  have fresh: "sessionRefs ?h' k \<noteq> Some ?c" for k
  proof
    assume "sessionRefs ?h' k = Some ?c"
    then have "sessionRefs h k = Some ?c" by simp
    then have "?c < ?c" using assms(1) unfolding allocated_def by blast
    then show False by simp
  qed
  have same: "contents ?h' = contents h" using assms(1) by (rule contents_fresh)
  have mut: "contents (assignFields ?c f ?h') = contents h" for f
  proof -
    have "assignFields ?c f ?h' = h \<lparr> objects := (objects h)(?c := f (objects h a)), nextRef := Suc ?c \<rparr>"
      by (simp add: assignFields_def)
    then show ?thesis using contents_fresh[OF assms(1)] by simp
  qed
  have refs: "sessionRefs (assignFields ?c f ?h') = sessionRefs h" for f
    by (simp add: assignFields_def)
  show ?thesis
    using g lt fresh same mut refs by (intro exI[of _ ?c] exI[of _ ?h']) auto
qed

theorem C9_witness:
  "\<exists>c h'. getSessionRef 5 ''s1'' demoHeap = (Some c, h') \<and>
           c \<noteq> 0 \<and> (\<forall>k. sessionRefs h' k \<noteq> Some c) \<and>
           objects h' c = objects demoHeap 0 \<and>
           contents h' = contents demoHeap \<and>
           (\<forall>f. contents (assignFields c f h') = contents demoHeap \<and>
                sessionRefs (assignFields c f h') = sessionRefs demoHeap)"
proof -
  have 1: "allocated demoHeap" by (simp add: allocated_def demoHeap_def)
  have 2: "sessionRefs demoHeap ''s1'' = Some 0" by (simp add: demoHeap_def)
  have 3: "\<not> isSessionExpired 5 (objects demoHeap 0)"
    by (simp add: demoHeap_def isSessionExpired_def extractedSession_def)
  show ?thesis using C9_getSession_returns_fresh_copy[OF 1 _ 2 3] by simp
qed

section \<open>The connection registry never holds an empty set\<close>

lemma sendEvent_returns: "\<exists>st'. sendEvent res ty d st = Inr st' \<and> connections st' = connections st"
  by (auto simp: sendEvent_def res_write_def Let_def split: sum.splits)

lemma set_AList_update: "set (AList.update k v al) \<subseteq> insert (k, v) (set al)"
  by (induction al) auto

lemma noEmptySet_update:
  "noEmptySet st \<Longrightarrow> c \<noteq> [] \<Longrightarrow> connections st' = AList.update k c (connections st) \<Longrightarrow> noEmptySet st'"
  using set_AList_update[of k c "connections st"] by (fastforce simp: noEmptySet_def)

lemma noEmptySet_delete:
  "noEmptySet st \<Longrightarrow> connections st' = AList.delete k (connections st) \<Longrightarrow> noEmptySet st'"
  by (auto simp: noEmptySet_def AList.delete_eq)

lemma noEmptySet_same:
  "noEmptySet st \<Longrightarrow> connections st' = connections st \<Longrightarrow> noEmptySet st'"
  by (simp add: noEmptySet_def)

lemma removeConnection_inv: "noEmptySet st \<Longrightarrow> noEmptySet (removeConnection sid res st)"
  by (auto simp: removeConnection_def Let_def split: option.splits
      intro: noEmptySet_delete noEmptySet_update[where st=st])

lemma fold_removeConnection_inv:
  "noEmptySet st \<Longrightarrow> noEmptySet (fold (removeConnection sid) dead st)"
  by (induction dead arbitrary: st) (auto simp: removeConnection_inv)

lemma sendOrMark_connections:
  "connections (fst (sendOrMark ty d res acc)) = connections (fst acc)"
  using sendEvent_returns[of res ty d "fst acc"]
  by (cases acc) (auto simp: sendOrMark_def split: sum.splits)

lemma fold_sendOrMark_connections:
  "connections (fst (fold (sendOrMark ty d) conns acc)) = connections (fst acc)"
  by (induction conns arbitrary: acc) (auto simp: sendOrMark_connections)

lemma broadcastToSession_inv:
  "noEmptySet st \<Longrightarrow> noEmptySet (broadcastToSession now sid ty d st)"
proof -
  assume inv: "noEmptySet st"
  have "noEmptySet (fold (removeConnection sid) dead st')"
    if "fold (sendOrMark ty (EventData sid now d)) conns (st, []) = (st', dead)" for conns st' dead
  proof -
    have "connections st' = connections st"
      using fold_sendOrMark_connections[of ty "EventData sid now d" conns "(st, [])"] that by simp
    then have "noEmptySet st'" using inv by (rule noEmptySet_same[rotated])
    then show ?thesis by (rule fold_removeConnection_inv)
  qed
  then show ?thesis using inv
    by (auto simp: broadcastToSession_def split: option.splits prod.splits)
qed

lemma heartbeatSession_inv:
  "noEmptySet st \<Longrightarrow> noEmptySet (heartbeatSession now entry st)"
proof -
  assume inv: "noEmptySet st"
  obtain sid conns where e: "entry = (sid, conns)" by (cases entry)
  obtain st' dead where f: "fold (sendOrMark ''heartbeat'' (HeartbeatData now)) conns (st, []) = (st', dead)"
    by (cases "fold (sendOrMark ''heartbeat'' (HeartbeatData now)) conns (st, [])")
  have "connections st' = connections st"
    using fold_sendOrMark_connections[of "''heartbeat''" "HeartbeatData now" conns "(st, [])"] f by simp
  then have "noEmptySet st'" using inv by (rule noEmptySet_same[rotated])
  then have "noEmptySet (fold (removeConnection sid) dead st')" by (rule fold_removeConnection_inv)
  then show ?thesis using e f by (simp add: heartbeatSession_def)
qed

lemma fold_heartbeatSession_inv:
  "noEmptySet st \<Longrightarrow> noEmptySet (fold (heartbeatSession now) es st)"
  by (induction es arbitrary: st) (auto simp: heartbeatSession_inv)

lemma sendHeartbeat_inv: "noEmptySet st \<Longrightarrow> noEmptySet (sendHeartbeat now st)"
  by (simp add: sendHeartbeat_def fold_heartbeatSession_inv)

lemma cleanupSession_inv:
  "noEmptySet (snd acc) \<Longrightarrow> noEmptySet (snd (cleanupSession entry acc))"
proof -
  assume inv: "noEmptySet (snd acc)"
  obtain sid conns where e: "entry = (sid, conns)" by (cases entry)
  obtain n st where a: "acc = (n, st)" by (cases acc)
  let ?rem = "fold removeAll (filter (isDead st) conns) conns"
  let ?st1 = "st \<lparr> connections := AList.update sid ?rem (connections st) \<rparr>"
  show ?thesis
  proof (cases "?rem = []")
    case True
    have "connections (?st1 \<lparr> connections := AList.delete sid (connections ?st1) \<rparr>)
          = AList.delete sid (connections st)"
      by (simp add: AList.delete_update_same)
    then have "noEmptySet (?st1 \<lparr> connections := AList.delete sid (connections ?st1) \<rparr>)"
      using inv a by (auto intro: noEmptySet_delete[where st=st])
    then show ?thesis using e a True by (simp add: cleanupSession_def Let_def)
  next
    case False
    then have "noEmptySet ?st1" using inv a by (auto intro: noEmptySet_update[where st=st])
    then show ?thesis using e a False by (simp add: cleanupSession_def Let_def)
  qed
qed

lemma fold_cleanupSession_inv:
  "noEmptySet (snd acc) \<Longrightarrow> noEmptySet (snd (fold cleanupSession es acc))"
  by (induction es arbitrary: acc) (auto simp: cleanupSession_inv)

lemma cleanupDeadConnections_inv:
  "noEmptySet st \<Longrightarrow> noEmptySet (snd (cleanupDeadConnections st))"
  by (simp add: cleanupDeadConnections_def fold_cleanupSession_inv)

lemma closeOne_connections: "connections (closeOne sid res st) = connections st"
  using sendEvent_returns[of res "''session_closed''" "SessionClosed sid" st]
  by (auto simp: closeOne_def res_end_def Let_def split: sum.splits)

lemma fold_closeOne_connections: "connections (fold (closeOne sid) conns st) = connections st"
  by (induction conns arbitrary: st) (auto simp: closeOne_connections)

lemma closeSessionConnections_inv:
  "noEmptySet st \<Longrightarrow> noEmptySet (closeSessionConnections sid st)"
  by (auto simp: closeSessionConnections_def Let_def fold_closeOne_connections
      split: option.splits intro: noEmptySet_delete[where st=st])

lemma set_add_nonempty: "set_add res conns \<noteq> []"
  by (auto simp: set_add_def)

lemma createConnection_inv:
  assumes "noEmptySet st"
  shows "noEmptySet (snd (createConnection now sid res st))"
proof (cases "sid = [] \<or> \<not> headOk (streams st res)")
  case True
  then show ?thesis using assms by (auto simp: createConnection_def res_writeHead_def)
next
  case False
  obtain st2 where s: "sendEvent res ''connected'' (Connected sid now) st = Inr st2"
    and c: "connections st2 = connections st"
    using sendEvent_returns[of res "''connected''" "Connected sid now" st] by blast
  have "noEmptySet st2" using assms c by (rule noEmptySet_same)
  then have "noEmptySet (st2 \<lparr> connections := AList.update sid
      (set_add res (case map_of (connections st2) sid of None \<Rightarrow> [] | Some c \<Rightarrow> c))
      (connections st2) \<rparr>)"
    using set_add_nonempty by (rule noEmptySet_update) simp
  then show ?thesis using False s
    by (simp add: createConnection_def res_writeHead_def Let_def)
qed

lemma key_iff_count:
  assumes "noEmptySet st"
  shows "(sid \<in> fst ` set (connections st)) = (0 < getConnectionCount sid st)"
proof (cases "map_of (connections st) sid")
  case None
  then have "sid \<notin> fst ` set (connections st)" by (simp add: map_of_eq_None_iff)
  then show ?thesis using None by (simp add: getConnectionCount_def)
next
  case (Some c)
  then have "(sid, c) \<in> set (connections st)" by (rule map_of_SomeD)
  then have "c \<noteq> []" "sid \<in> fst ` set (connections st)"
    using assms by (force simp: noEmptySet_def)+
  then show ?thesis using Some by (simp add: getConnectionCount_def)
qed

text \<open>
  Claim C10. If no session id is mapped to an empty set, then none is after
  \<open>createConnection\<close> (whether it returns or \<open>writeHead\<close> throws),
  \<open>removeConnection\<close>, \<open>broadcastToSession\<close>, \<open>sendHeartbeat\<close>,
  \<open>cleanupDeadConnections\<close> and \<open>closeSessionConnections\<close>; and in such a registry a
  session id is a key exactly when \<open>getConnectionCount\<close> of it is positive. The
  registry the constructor builds has no key at all.
\<close>

theorem C10_no_empty_connection_set:
  assumes "noEmptySet st"
  shows "noEmptySet (snd (createConnection now sid res st)) \<and>
         noEmptySet (removeConnection sid res st) \<and>
         noEmptySet (broadcastToSession now sid eventType data st) \<and>
         noEmptySet (sendHeartbeat now st) \<and>
         noEmptySet (snd (cleanupDeadConnections st)) \<and>
         noEmptySet (closeSessionConnections sid st) \<and>
         (sid \<in> fst ` set (connections st)) = (0 < getConnectionCount sid st) \<and>
         noEmptySet emptyManager"
  using assms
  by (simp add: createConnection_inv removeConnection_inv broadcastToSession_inv sendHeartbeat_inv
      cleanupDeadConnections_inv closeSessionConnections_inv key_iff_count)
     (simp add: noEmptySet_def emptyManager_def)

theorem C10_witness:
  "noEmptySet demoManager \<and>
   noEmptySet (snd (createConnection 0 ''s2'' 3 demoManager)) \<and>
   noEmptySet (removeConnection ''s1'' 1 demoManager) \<and>
   noEmptySet (closeSessionConnections ''s1'' demoManager) \<and>
   0 < getConnectionCount ''s1'' demoManager"
proof -
  have inv: "noEmptySet demoManager" by (simp add: noEmptySet_def demoManager_def)
  have key: "''s1'' \<in> fst ` set (connections demoManager)" by (simp add: demoManager_def)
  show ?thesis
    using C10_no_empty_connection_set[OF inv, of 0 "''s2''" 3]
      C10_no_empty_connection_set[OF inv, of 0 "''s1''" 1] inv key
    by simp
qed

section \<open>Fan-out\<close>

lemma removeConnection_streams: "streams (removeConnection sid r st) = streams st"
  by (simp add: removeConnection_def Let_def split: option.splits)

lemma fold_removeConnection_streams: "streams (fold (removeConnection sid) dead st) = streams st"
  by (induction dead arbitrary: st) (simp_all add: removeConnection_streams)

lemma map_of_removeConnection:
  assumes "sid \<noteq> []"
  shows "map_of (connections (removeConnection sid r st)) sid =
     (case map_of (connections st) sid of
        None \<Rightarrow> None
      | Some c \<Rightarrow> if removeAll r c = [] then None else Some (removeAll r c))"
  using assms
  by (simp add: removeConnection_def Let_def update_conv' delete_conv' split: option.splits)

lemma map_of_fold_removeConnection:
  assumes "sid \<noteq> []"
  shows "map_of (connections (fold (removeConnection sid) dead st)) sid =
     (case map_of (connections st) sid of
        None \<Rightarrow> None
      | Some c \<Rightarrow> if dead = [] then Some c
                  else if filter (\<lambda>x. x \<notin> set dead) c = [] then None
                  else Some (filter (\<lambda>x. x \<notin> set dead) c))"
proof (induction dead arbitrary: st)
  case Nil
  show ?case by (simp split: option.splits)
next
  case (Cons r dead)
  let ?st1 = "removeConnection sid r st"
  show ?case
  proof (cases "map_of (connections st) sid")
    case None
    then have "map_of (connections ?st1) sid = None"
      by (simp add: map_of_removeConnection[OF assms])
    then show ?thesis using Cons.IH[of ?st1] None by simp
  next
    case (Some c)
    let ?c' = "removeAll r c"
    have F: "filter (\<lambda>x. x \<notin> set (r # dead)) c = filter (\<lambda>x. x \<notin> set dead) ?c'"
      by (induction c) auto
    show ?thesis
    proof (cases "?c' = []")
      case True
      then have 1: "map_of (connections ?st1) sid = None"
        using Some by (simp add: map_of_removeConnection[OF assms])
      have "filter (\<lambda>x. x \<notin> set (r # dead)) c = []" unfolding F using True by simp
      then show ?thesis using Cons.IH[of ?st1] 1 Some by simp
    next
      case False
      then have 1: "map_of (connections ?st1) sid = Some ?c'"
        using Some by (simp add: map_of_removeConnection[OF assms])
      have "map_of (connections (fold (removeConnection sid) (r # dead) st)) sid =
          (if dead = [] then Some ?c'
           else if filter (\<lambda>x. x \<notin> set dead) ?c' = [] then None
           else Some (filter (\<lambda>x. x \<notin> set dead) ?c'))"
        using Cons.IH[of ?st1] 1 by simp
      also have "\<dots> = (if filter (\<lambda>x. x \<notin> set dead) ?c' = [] then None
           else Some (filter (\<lambda>x. x \<notin> set dead) ?c'))"
        using False by auto
      also have "\<dots> = (if filter (\<lambda>x. x \<notin> set (r # dead)) c = [] then None
           else Some (filter (\<lambda>x. x \<notin> set (r # dead)) c))"
        by (simp only: F)
      finally show ?thesis using Some by simp
    qed
  qed
qed

lemma sendOrMark_step:
  "sendOrMark ty d res (st, dead) =
     (if isDead st res then (st, dead @ [res])
      else if writeOk (streams st res)
      then (st \<lparr> streams := (streams st)
                (res := (streams st res) \<lparr> written := written (streams st res) @ [(ty, d)] \<rparr>) \<rparr>,
            dead)
      else (st, dead))"
  by (simp add: sendOrMark_def sendEvent_def res_write_def isDead_def Let_def)

lemma fold_sendOrMark:
  assumes "distinct conns"
  shows "fold (sendOrMark ty d) conns (st, dead) =
     (st \<lparr> streams := (\<lambda>r. if r \<in> set conns \<and> \<not> isDead st r \<and> writeOk (streams st r)
                            then (streams st r) \<lparr> written := written (streams st r) @ [(ty, d)] \<rparr>
                            else streams st r) \<rparr>,
      dead @ filter (isDead st) conns)"
  using assms
proof (induction conns arbitrary: st dead)
  case Nil
  show ?case by simp
next
  case (Cons c conns)
  let ?st1 = "fst (sendOrMark ty d c (st, dead))"
  have flags: "isDead ?st1 r = isDead st r" "writeOk (streams ?st1 r) = writeOk (streams st r)" for r
    by (simp_all add: sendOrMark_step isDead_def)
  have other: "r \<noteq> c \<Longrightarrow> streams ?st1 r = streams st r" for r
    by (simp add: sendOrMark_step)
  have conn: "connections ?st1 = connections st"
    by (simp add: sendOrMark_step)
  have d: "distinct conns" "c \<notin> set conns" using Cons.prems by auto
  obtain st1 dead1 where s: "sendOrMark ty d c (st, dead) = (st1, dead1)"
    by (cases "sendOrMark ty d c (st, dead)")
  then have st1: "st1 = ?st1" by simp
  have dead1: "dead1 = dead @ (if isDead st c then [c] else [])"
    using s by (auto simp: sendOrMark_step split: if_splits)
  have f: "filter (isDead st1) conns = filter (isDead st) conns"
    using flags(1) st1 by (auto intro: filter_cong)
  have "fold (sendOrMark ty d) (c # conns) (st, dead) = fold (sendOrMark ty d) conns (st1, dead1)"
    using s by simp
  also have "\<dots> = (st1 \<lparr> streams := (\<lambda>r. if r \<in> set conns \<and> \<not> isDead st1 r \<and> writeOk (streams st1 r)
                            then (streams st1 r) \<lparr> written := written (streams st1 r) @ [(ty, d)] \<rparr>
                            else streams st1 r) \<rparr>,
      dead1 @ filter (isDead st1) conns)"
    using Cons.IH[OF d(1)] .
  also have "\<dots> = (st \<lparr> streams := (\<lambda>r. if r \<in> set (c # conns) \<and> \<not> isDead st r \<and> writeOk (streams st r)
                            then (streams st r) \<lparr> written := written (streams st r) @ [(ty, d)] \<rparr>
                            else streams st r) \<rparr>,
      dead @ filter (isDead st) (c # conns))"
  proof -
    have "(\<lambda>r. if r \<in> set conns \<and> \<not> isDead st1 r \<and> writeOk (streams st1 r)
                then (streams st1 r) \<lparr> written := written (streams st1 r) @ [(ty, d)] \<rparr>
                else streams st1 r)
        = (\<lambda>r. if r \<in> set (c # conns) \<and> \<not> isDead st r \<and> writeOk (streams st r)
                then (streams st r) \<lparr> written := written (streams st r) @ [(ty, d)] \<rparr>
                else streams st r)"
    proof
      fix r
      show "(if r \<in> set conns \<and> \<not> isDead st1 r \<and> writeOk (streams st1 r)
                then (streams st1 r) \<lparr> written := written (streams st1 r) @ [(ty, d)] \<rparr>
                else streams st1 r)
        = (if r \<in> set (c # conns) \<and> \<not> isDead st r \<and> writeOk (streams st r)
                then (streams st r) \<lparr> written := written (streams st r) @ [(ty, d)] \<rparr>
                else streams st r)"
      proof (cases "r = c")
        case True
        then show ?thesis using d(2) st1 by (simp add: sendOrMark_step)
      next
        case False
        then show ?thesis using flags[of r] other[of r] st1 by simp
      qed
    qed
    moreover have "st1 \<lparr> streams := g \<rparr> = st \<lparr> streams := g \<rparr>" for g
      using st1 by (simp add: sendOrMark_step)
    ultimately show ?thesis using dead1 f by simp
  qed
  finally show ?case .
qed

text \<open>
  What \<open>broadcastToSession\<close> does to the streams attached to a session: the set that
  remains is the streams that were neither destroyed nor finished, whether their write
  succeeded or not; and a stream has the event appended exactly when it is attached,
  neither destroyed nor finished, and its write succeeds. A failed write changes
  nothing and stops nothing.
\<close>

lemma broadcastToSession_fanout:
  assumes "sid \<noteq> []" and "eventType \<noteq> []"
    and "map_of (connections st) sid = Some conns" and "conns \<noteq> []" and "distinct conns"
  shows "map_of (connections (broadcastToSession now sid eventType data st)) sid =
           (if filter (\<lambda>r. \<not> isDead st r) conns = [] then None
            else Some (filter (\<lambda>r. \<not> isDead st r) conns))"
    and "written (streams (broadcastToSession now sid eventType data st) r) =
           written (streams st r) @
           (if r \<in> set conns \<and> \<not> isDead st r \<and> writeOk (streams st r)
            then [(eventType, EventData sid now data)] else [])"
proof -
  let ?d = "EventData sid now data"
  let ?st1 = "st \<lparr> streams := (\<lambda>r. if r \<in> set conns \<and> \<not> isDead st r \<and> writeOk (streams st r)
                then (streams st r) \<lparr> written := written (streams st r) @ [(eventType, ?d)] \<rparr>
                else streams st r) \<rparr>"
  have b: "broadcastToSession now sid eventType data st =
      fold (removeConnection sid) (filter (isDead st) conns) ?st1"
    using assms(1-4) fold_sendOrMark[OF assms(5), of eventType ?d st "[]"]
    by (simp add: broadcastToSession_def)
  have f: "filter (\<lambda>x. x \<in> set conns \<longrightarrow> \<not> isDead st x) conns = filter (\<lambda>r. \<not> isDead st r) conns"
    by (auto intro: filter_cong)
  have e: "filter (isDead st) conns = [] \<Longrightarrow> filter (\<lambda>r. \<not> isDead st r) conns = conns"
    by (induction conns) (auto split: if_splits)
  show "map_of (connections (broadcastToSession now sid eventType data st)) sid =
           (if filter (\<lambda>r. \<not> isDead st r) conns = [] then None
            else Some (filter (\<lambda>r. \<not> isDead st r) conns))"
  proof (cases "filter (isDead st) conns = []")
    case True
    then show ?thesis using assms(4) e[OF True]
      by (simp add: b map_of_fold_removeConnection[OF assms(1)] assms(3))
  next
    case False
    then show ?thesis
      by (simp add: b map_of_fold_removeConnection[OF assms(1)] assms(3) f)
  qed
  show "written (streams (broadcastToSession now sid eventType data st) r) =
           written (streams st r) @
           (if r \<in> set conns \<and> \<not> isDead st r \<and> writeOk (streams st r)
            then [(eventType, EventData sid now data)] else [])"
    by (simp add: b fold_removeConnection_streams)
qed

text \<open>
  Claim C7 says that a write failure marks that stream dead and removes it. It does
  not: \<open>sendEvent\<close> catches the error of \<open>res.write\<close> itself, so the \<open>catch\<close> of
  \<open>broadcastToSession\<close> that pushes onto \<open>deadConnections\<close> never runs. With two
  streams attached and the first one's \<open>write\<close> throwing, both are still attached after
  the broadcast; the second has received the event.
\<close>

theorem C7_failed_write_keeps_stream:
  "res_write 1 (''analysis.started'', EventData ''s1'' 5 ''{}'') brokenPipe = Inl (Error ''write'') \<and>
   connections (broadcastToSession 5 ''s1'' ''analysis.started'' ''{}'' brokenPipe) =
     [(''s1'', [1, 2])] \<and>
   written (streams (broadcastToSession 5 ''s1'' ''analysis.started'' ''{}'' brokenPipe) 2) =
     [(''analysis.started'', EventData ''s1'' 5 ''{}'')]"
  by (simp add: broadcastToSession_def brokenPipe_def sendOrMark_def sendEvent_def isDead_def
      res_write_def Let_def)

section \<open>The retry loop and its backoff\<close>

lemma msg404: "thrownMessage (Some 404) m =
    ''AI model not found. Please check if the model name is correct and available.''"
  by (simp add: thrownMessage_def)

lemma msg401: "thrownMessage (Some 401) m =
    ''Unauthorized access to AI service. Please check your API key.''"
  by (simp add: thrownMessage_def)

lemma msg429: "thrownMessage (Some 429) m = ''Rate limit exceeded. Please try again later.''"
  by (simp add: thrownMessage_def)

lemma msg5xx: "k \<ge> 500 \<Longrightarrow> thrownMessage (Some k) m =
    ''AI service temporarily unavailable. Please try again later.''"
  by (simp add: thrownMessage_def)

lemma class404:
  "includes_str (thrownMessage (Some 404) m) ''model not found''"
  "\<not> isRetryable (thrownMessage (Some 404) m)"
  by (simp_all add: msg404 isRetryable_def)

lemma class401:
  "\<not> includes_str (thrownMessage (Some 401) m) ''model not found''"
  "\<not> isRetryable (thrownMessage (Some 401) m)"
  by (simp_all add: msg401 isRetryable_def)

lemma class429:
  "\<not> includes_str (thrownMessage (Some 429) m) ''model not found''"
  "isRetryable (thrownMessage (Some 429) m)"
  by (simp_all add: msg429 isRetryable_def)

lemma class5xx:
  assumes "k \<ge> 500"
  shows "\<not> includes_str (thrownMessage (Some k) m) ''model not found''"
    and "isRetryable (thrownMessage (Some k) m)"
  by (simp_all add: msg5xx[OF assms] isRetryable_def)

lemma analyze_failure:
  assumes "failure (modelRun env n) = Some (es, em)"
  shows "analyzeResumeStreaming env n f st =
           (Inl (thrownMessage es em), snd (analyzeResumeStreaming env n f st))"
  using assms by (simp add: analyzeResumeStreaming_def Let_def)

lemma trace_fold_onChunk:
  "trace (fold (\<lambda>chunk. broadcast sid (AnalysisStreaming chunk)) cs st) =
     trace st @ map (\<lambda>c. Broadcast sid (AnalysisStreaming c)) cs"
  by (induction cs arbitrary: st) (simp_all add: broadcast_def)

lemma trace_analyze:
  "trace (snd (analyzeResumeStreaming env n (\<lambda>chunk. broadcast sid (AnalysisStreaming chunk)) st)) =
     trace st @ [Analyze n] @ map (\<lambda>c. Broadcast sid (AnalysisStreaming c)) (chunks (modelRun env n))"
  by (simp add: analyzeResumeStreaming_def Let_def trace_fold_onChunk
      split: option.splits sum.splits prod.splits)

lemma trace_beginAttempt:
  "trace (beginAttempt sid n st) = trace st @
     (if n > 0 then [Broadcast sid (RetryStarted n (Some ''analysis'')), Sleep (backoff n)]
      else [Broadcast sid AnalysisStarted])"
  by (simp add: beginAttempt_def sleep_def broadcast_def sessionManager_updateSession_def)

lemma trace_afterAttempt:
  "trace (afterAttempt env sid n st) = trace st @
     (if n > 0 then [Broadcast sid (RetryStarted n (Some ''analysis'')), Sleep (backoff n)]
      else [Broadcast sid AnalysisStarted]) @
     [Analyze n] @ map (\<lambda>c. Broadcast sid (AnalysisStreaming c)) (chunks (modelRun env n))"
  by (simp add: afterAttempt_def trace_analyze trace_beginAttempt)

lemma timing_afterAttempt:
  "timing (afterAttempt env sid n st) = timing st @ attemptSchedule n"
  by (simp add: timing_def trace_afterAttempt attemptSchedule_def backoff_def filter_map comp_def)

lemma timing_simps:
  "timing (completeAnalysis sid fb st) = timing st"
  "timing (failAnalysis sid msg r n st) = timing st"
  "timing (snd (reinitializeModel env n st)) = timing st"
  "timing (broadcast sid ev st) = timing st"
  by (simp_all add: timing_def completeAnalysis_def failAnalysis_def reinitializeModel_def
      broadcast_def sessionManager_updateSession_def)

lemma analyzeWithRetry_step:
  "timing (analyzeWithRetry env sid n st) = timing st @ attemptSchedule n \<or>
   (n < maxRetries \<and> (\<exists>st'. analyzeWithRetry env sid n st = analyzeWithRetry env sid (Suc n) st'
        \<and> timing st' = timing st @ attemptSchedule n))"
proof -
  let ?r = "analyzeResumeStreaming env n (\<lambda>chunk. broadcast sid (AnalysisStreaming chunk))
              (beginAttempt sid n st)"
  have t: "timing (snd ?r) = timing st @ attemptSchedule n"
    using timing_afterAttempt[of env sid n st] by (simp add: afterAttempt_def)
  obtain res st2 where r: "?r = (res, st2)" by (cases ?r)
  then have t2: "timing st2 = timing st @ attemptSchedule n" using t by simp
  have t3: "timing (snd (reinitializeModel env n st2)) = timing st @ attemptSchedule n"
    using t2 by (simp add: timing_simps)
  show ?thesis
  proof (cases res)
    case (Inr fb)
    then show ?thesis using analyzeWithRetry.simps[of env sid n st] r t2
      by (simp add: timing_simps)
  next
    case (Inl message)
    obtain ok st3 where re: "reinitializeModel env n st2 = (ok, st3)"
      by (cases "reinitializeModel env n st2")
    then have t3': "timing st3 = timing st @ attemptSchedule n" using t3 by simp
    show ?thesis
      using analyzeWithRetry.simps[of env sid n st] r Inl re t2 t3'
      by (auto simp: timing_simps Let_def)
  qed
qed

lemma schedule_single: "schedule n n = attemptSchedule n"
  by (simp add: schedule_def)

lemma schedule_Cons: "n < m \<Longrightarrow> attemptSchedule n @ schedule (Suc n) m = schedule n m"
  by (simp add: schedule_def upt_conv_Cons)

lemma analyzeWithRetry_schedule:
  "\<exists>m. n \<le> m \<and> m \<le> max n maxRetries \<and>
       timing (analyzeWithRetry env sid n st) = timing st @ schedule n m"
proof (induction "maxRetries - n" arbitrary: n st)
  case 0
  then have "\<not> n < maxRetries" by simp
  then have "timing (analyzeWithRetry env sid n st) = timing st @ schedule n n"
    using analyzeWithRetry_step[of env sid n st] by (simp add: schedule_single)
  then show ?case by (intro exI[of _ n]) simp
next
  case (Suc k)
  from analyzeWithRetry_step[of env sid n st] show ?case
  proof
    assume "timing (analyzeWithRetry env sid n st) = timing st @ attemptSchedule n"
    then show ?thesis by (intro exI[of _ n]) (simp add: schedule_single)
  next
    assume "n < maxRetries \<and> (\<exists>st'. analyzeWithRetry env sid n st = analyzeWithRetry env sid (Suc n) st'
        \<and> timing st' = timing st @ attemptSchedule n)"
    then obtain st' where lt: "n < maxRetries"
      and eq: "analyzeWithRetry env sid n st = analyzeWithRetry env sid (Suc n) st'"
      and t: "timing st' = timing st @ attemptSchedule n" by blast
    have "k = maxRetries - Suc n" using Suc.hyps(2) by simp
    from Suc.hyps(1)[OF this, of st'] obtain m where
      m: "Suc n \<le> m" "m \<le> max (Suc n) maxRetries"
      "timing (analyzeWithRetry env sid (Suc n) st') = timing st' @ schedule (Suc n) m" by blast
    have "timing (analyzeWithRetry env sid n st) = timing st @ schedule n m"
      using eq t m(1,3) schedule_Cons[of n m] by simp
    moreover have "n \<le> m" "m \<le> max n maxRetries" using m(1,2) lt by auto
    ultimately show ?thesis by blast
  qed
qed

lemma analyzeWithRetry_process_step:
  "timing (analyzeWithRetry_process env sid n st) = timing st @ attemptSchedule n \<or>
   (n < maxRetries \<and> (\<exists>st'. analyzeWithRetry_process env sid n st = analyzeWithRetry_process env sid (Suc n) st'
        \<and> timing st' = timing st @ attemptSchedule n))"
proof -
  let ?b = "beginAttempt_process sid n st"
  let ?r = "analyzeResumeStreaming env n (\<lambda>chunk. broadcast sid (AnalysisStreaming chunk)) ?b"
  have b: "timing ?b = timing st @ (if n > 0 then [Sleep (backoff n)] else [])"
    by (simp add: timing_def beginAttempt_process_def sleep_def broadcast_def)
  have "timing (snd ?r) = timing ?b @ [Analyze n]"
    by (simp add: timing_def trace_analyze filter_map comp_def)
  then have t: "timing (snd ?r) = timing st @ attemptSchedule n"
    using b by (simp add: attemptSchedule_def backoff_def)
  obtain res st2 where r: "?r = (res, st2)" by (cases ?r)
  then have t2: "timing st2 = timing st @ attemptSchedule n" using t by simp
  show ?thesis
    using analyzeWithRetry_process.simps[of env sid n st] r t2
    by (cases res) (auto simp: timing_simps)
qed

lemma analyzeWithRetry_process_schedule:
  "\<exists>m. n \<le> m \<and> m \<le> max n maxRetries \<and>
       timing (analyzeWithRetry_process env sid n st) = timing st @ schedule n m"
proof (induction "maxRetries - n" arbitrary: n st)
  case 0
  then have "\<not> n < maxRetries" by simp
  then have "timing (analyzeWithRetry_process env sid n st) = timing st @ schedule n n"
    using analyzeWithRetry_process_step[of env sid n st] by (simp add: schedule_single)
  then show ?case by (intro exI[of _ n]) simp
next
  case (Suc k)
  from analyzeWithRetry_process_step[of env sid n st] show ?case
  proof
    assume "timing (analyzeWithRetry_process env sid n st) = timing st @ attemptSchedule n"
    then show ?thesis by (intro exI[of _ n]) (simp add: schedule_single)
  next
    assume "n < maxRetries \<and> (\<exists>st'. analyzeWithRetry_process env sid n st =
        analyzeWithRetry_process env sid (Suc n) st' \<and> timing st' = timing st @ attemptSchedule n)"
    then obtain st' where lt: "n < maxRetries"
      and eq: "analyzeWithRetry_process env sid n st = analyzeWithRetry_process env sid (Suc n) st'"
      and t: "timing st' = timing st @ attemptSchedule n" by blast
    have "k = maxRetries - Suc n" using Suc.hyps(2) by simp
    from Suc.hyps(1)[OF this, of st'] obtain m where
      m: "Suc n \<le> m" "m \<le> max (Suc n) maxRetries"
      "timing (analyzeWithRetry_process env sid (Suc n) st') = timing st' @ schedule (Suc n) m" by blast
    have "timing (analyzeWithRetry_process env sid n st) = timing st @ schedule n m"
      using eq t m(1,3) schedule_Cons[of n m] by simp
    moreover have "n \<le> m" "m \<le> max n maxRetries" using m(1,2) lt by auto
    ultimately show ?thesis by blast
  qed
qed

text \<open>
  The steps of \<open>analyzeWithRetry\<close> after a failed or a successful model call, and the
  runs of both workflows against a model that always answers 429.
\<close>

lemma attempt_failed:
  assumes "failure (modelRun env n) = Some (es, em)"
  shows "analyzeResumeStreaming env n (\<lambda>chunk. broadcast sid (AnalysisStreaming chunk))
           (beginAttempt sid n st) = (Inl (thrownMessage es em), afterAttempt env sid n st)"
  using analyze_failure[OF assms] by (simp add: afterAttempt_def)

lemma step_terminal:
  assumes "failure (modelRun env n) = Some (es, em)"
    and "\<not> includes_str (thrownMessage es em) ''model not found''"
    and "\<not> (isRetryable (thrownMessage es em) \<and> n < maxRetries)"
  shows "analyzeWithRetry env sid n st =
           failAnalysis sid (thrownMessage es em) (isRetryable (thrownMessage es em)) n
             (afterAttempt env sid n st)"
  using assms(2,3) attempt_failed[OF assms(1), of sid st]
  by (subst analyzeWithRetry.simps) (auto simp: Let_def)

lemma step_retry:
  assumes "failure (modelRun env n) = Some (es, em)"
    and "\<not> includes_str (thrownMessage es em) ''model not found''"
    and "isRetryable (thrownMessage es em)" and "n < maxRetries"
  shows "analyzeWithRetry env sid n st = analyzeWithRetry env sid (Suc n) (afterAttempt env sid n st)"
  using assms(2,3,4) attempt_failed[OF assms(1), of sid st]
  by (subst analyzeWithRetry.simps) (auto simp: Let_def)

lemma step_notFound:
  assumes "failure (modelRun env n) = Some (es, em)"
    and "includes_str (thrownMessage es em) ''model not found''"
  shows "analyzeWithRetry env sid n st =
           (if reinitOk env n \<and> n < maxRetries
            then analyzeWithRetry env sid (Suc n)
                   (snd (reinitializeModel env n (afterAttempt env sid n st)))
            else failAnalysis sid (thrownMessage es em) False n
                   (snd (reinitializeModel env n (afterAttempt env sid n st))))"
proof -
  have "\<not> isRetryable (thrownMessage es em)" using assms(2) by (simp add: isRetryable_def)
  then show ?thesis
    using assms(2) attempt_failed[OF assms(1), of sid st]
    by (subst analyzeWithRetry.simps) (auto simp: Let_def reinitializeModel_def)
qed

lemma step_success:
  assumes "failure (modelRun env n) = None"
  shows "\<exists>fb. analyzeWithRetry env sid n st = completeAnalysis sid fb (afterAttempt env sid n st)
      \<and> parseResponse (JSON_parse env) (concat (chunks (modelRun env n))) = Inr fb"
proof -
  obtain fb where p: "parseResponse (JSON_parse env) (concat (chunks (modelRun env n))) = Inr fb"
    using parseResponse_returns by blast
  then have "analyzeResumeStreaming env n (\<lambda>chunk. broadcast sid (AnalysisStreaming chunk))
           (beginAttempt sid n st) = (Inr fb, afterAttempt env sid n st)"
    using assms by (simp add: analyzeResumeStreaming_def afterAttempt_def Let_def)
  then have "analyzeWithRetry env sid n st = completeAnalysis sid fb (afterAttempt env sid n st)"
    by (subst analyzeWithRetry.simps) simp
  then show ?thesis using p by blast
qed

lemma trace_failAnalysis:
  "trace (failAnalysis sid msg r n st) = trace st @
     [Broadcast sid (ErrorEvent msg \<lparr> code = ''AI_ANALYSIS_FAILED'', stage = ''analysis'',
          retryable = r, attempts = Some (n + 1) \<rparr>)]"
  by (simp add: failAnalysis_def broadcast_def sessionManager_updateSession_def)

lemma sessions_failAnalysis:
  assumes "sessions st sid = Some s" and "\<not> isSessionExpired (clock st) s" and "sid \<noteq> []"
  shows "sessions (failAnalysis sid msg r n st) sid =
     Some (s \<lparr> status := ''error'', retryCount := n + 1, lastError := Some msg,
              updatedAt := clock st, sessionId := sid \<rparr>)"
  using assms
  by (simp add: failAnalysis_def broadcast_def sessionManager_updateSession_def
      updateSession_def spread_def noData_def)

lemmas workflow_defs = failAnalysis_def completeAnalysis_def afterAttempt_def
  analyzeResumeStreaming_def beginAttempt_def beginAttempt_process_def reinitializeModel_def
  sleep_def broadcast_def sessionManager_updateSession_def updateSession_def getSession_def
  spread_def noData_def isSessionExpired_def backoff_def Let_def

lemma rateLimited_fails: "failure (modelRun rateLimited n) = Some (Some 429, ''quota'')"
  by (simp add: rateLimited_def)

lemma rateLimited_run:
  "analyzeWithRetry rateLimited ''s1'' 0 demoWorkflow =
     failAnalysis ''s1'' ''Rate limit exceeded. Please try again later.'' True 3
       (afterAttempt rateLimited ''s1'' 3
         (afterAttempt rateLimited ''s1'' 2
           (afterAttempt rateLimited ''s1'' 1
             (afterAttempt rateLimited ''s1'' 0 demoWorkflow))))"
proof -
  note r = step_retry[OF rateLimited_fails class429]
  have 0: "analyzeWithRetry rateLimited ''s1'' 0 st = analyzeWithRetry rateLimited ''s1'' 1
             (afterAttempt rateLimited ''s1'' 0 st)" for st
    using r[of 0 "''s1''" st] by (simp add: maxRetries_def)
  have 1: "analyzeWithRetry rateLimited ''s1'' 1 st = analyzeWithRetry rateLimited ''s1'' 2
             (afterAttempt rateLimited ''s1'' 1 st)" for st
    using r[of 1 "''s1''" st] by (simp add: maxRetries_def numeral_2_eq_2)
  have 2: "analyzeWithRetry rateLimited ''s1'' 2 st = analyzeWithRetry rateLimited ''s1'' 3
             (afterAttempt rateLimited ''s1'' 2 st)" for st
    using r[of 2 "''s1''" st] by (simp add: maxRetries_def numeral_3_eq_3 numeral_2_eq_2)
  have 3: "analyzeWithRetry rateLimited ''s1'' 3 st =
             failAnalysis ''s1'' ''Rate limit exceeded. Please try again later.'' True 3
               (afterAttempt rateLimited ''s1'' 3 st)" for st
    using step_terminal[OF rateLimited_fails class429(1), of 3 "''s1''" st] class429(2)[of "''quota''"]
    by (simp add: maxRetries_def msg429)
  show ?thesis by (simp only: 0 1 2 3)
qed

lemma rateLimited_state:
  "analyzeWithRetry rateLimited ''s1'' 0 demoWorkflow =
    \<lparr> sessions = [''s1'' \<mapsto> extractedSession \<lparr> status := ''error'', updatedAt := 7400,
         retryCount := 4, lastError := Some ''Rate limit exceeded. Please try again later.'' \<rparr>],
      trace = [Broadcast ''s1'' AnalysisStarted, Analyze 0,
         Broadcast ''s1'' (RetryStarted 1 (Some ''analysis'')), Sleep 1000, Analyze 1,
         Broadcast ''s1'' (RetryStarted 2 (Some ''analysis'')), Sleep 2000, Analyze 2,
         Broadcast ''s1'' (RetryStarted 3 (Some ''analysis'')), Sleep 4000, Analyze 3,
         Broadcast ''s1'' (ErrorEvent ''Rate limit exceeded. Please try again later.''
           \<lparr> code = ''AI_ANALYSIS_FAILED'', stage = ''analysis'',
             retryable = True, attempts = Some 4 \<rparr>)],
      clock = 7400 \<rparr>"
  unfolding rateLimited_run
  by (simp add: workflow_defs rateLimited_def demoWorkflow_def extractedSession_def)

lemma rateLimited_process_run:
  "analyzeWithRetry_process rateLimited ''s1'' 0 demoWorkflow =
    \<lparr> sessions = [''s1'' \<mapsto> extractedSession],
      trace = [Broadcast ''s1'' AnalysisStarted, Analyze 0,
         Broadcast ''s1'' (RetryStarted 1 (Some ''analysis'')), Sleep 1000, Analyze 1,
         Broadcast ''s1'' (RetryStarted 2 (Some ''analysis'')), Sleep 2000, Analyze 2,
         Broadcast ''s1'' (RetryStarted 3 (Some ''analysis'')), Sleep 4000, Analyze 3,
         Broadcast ''s1'' (ErrorEvent ''AI analysis failed after multiple attempts''
           \<lparr> code = ''AI_ANALYSIS_FAILED'', stage = ''analysis'',
             retryable = False, attempts = Some 4 \<rparr>)],
      clock = 7400 \<rparr>"
proof -
  have f: "analyzeResumeStreaming rateLimited n f st =
      (Inl ''Rate limit exceeded. Please try again later.'',
       st \<lparr> trace := trace st @ [Analyze n], clock := clock st + 100 \<rparr>)" for n f st
    by (simp add: analyzeResumeStreaming_def rateLimited_def msg429 Let_def)
  show ?thesis
    apply (subst analyzeWithRetry_process.simps, simp add: f maxRetries_def)
    apply (subst analyzeWithRetry_process.simps, simp add: f maxRetries_def)
    apply (subst analyzeWithRetry_process.simps, simp add: f maxRetries_def)
    apply (subst analyzeWithRetry_process.simps, simp add: f maxRetries_def)
    apply (simp add: workflow_defs demoWorkflow_def)
    done
qed

text \<open>
  Claim C5. In both workflows, a run of \<open>analyzeWithRetry\<close> entered with
  \<open>retryCount = n\<close> adds to the sleeps and model calls of the trace exactly the
  schedule of the attempts \<open>n\<close> to some \<open>m\<close>, with \<open>m\<close> at most 3 (or \<open>n\<close> itself if
  that is larger): before the model call of every attempt \<open>k \<ge> 1\<close> it sleeps
  \<open>min(1000 * 2^(k-1), 10000)\<close> milliseconds, and before the call of attempt 0 it
  does not sleep.
\<close>

theorem C5_backoff_schedule:
  "(\<exists>m. n \<le> m \<and> m \<le> max n maxRetries \<and>
        timing (analyzeWithRetry env sid n st) = timing st @ schedule n m) \<and>
   (\<exists>m. n \<le> m \<and> m \<le> max n maxRetries \<and>
        timing (analyzeWithRetry_process env sid n st) = timing st @ schedule n m)"
  using analyzeWithRetry_schedule analyzeWithRetry_process_schedule by blast

theorem C5_witness:
  "timing (analyzeWithRetry rateLimited ''s1'' 0 demoWorkflow) =
     [Analyze 0, Sleep 1000, Analyze 1, Sleep 2000, Analyze 2, Sleep 4000, Analyze 3] \<and>
   (\<exists>m. 0 \<le> m \<and> m \<le> max 0 maxRetries \<and>
      timing (analyzeWithRetry rateLimited ''s1'' 0 demoWorkflow) = timing demoWorkflow @ schedule 0 m)"
  using C5_backoff_schedule[of 0 rateLimited "''s1''" demoWorkflow]
  by (simp add: rateLimited_state timing_def)

section \<open>Failure classes\<close>

lemma failAnalysis_endsInError: "endsInError sid msg st (failAnalysis sid msg False n st)"
  unfolding endsInError_def
proof (intro conjI allI impI)
  show "\<exists>d. trace (failAnalysis sid msg False n st) = trace st @ [Broadcast sid (ErrorEvent msg d)]
      \<and> \<not> retryable d"
    by (simp add: trace_failAnalysis)
  show "clock (failAnalysis sid msg False n st) = clock st"
    by (simp add: failAnalysis_def broadcast_def sessionManager_updateSession_def)
next
  fix s
  assume "sessions st sid = Some s \<and> \<not> isSessionExpired (clock st) s \<and> sid \<noteq> []"
  then show "\<exists>s'. sessions (failAnalysis sid msg False n st) sid = Some s' \<and>
      status s' = ''error'' \<and> lastError s' = Some msg"
    by (simp add: sessions_failAnalysis)
qed

lemma unauthorized_fails: "failure (modelRun unauthorized n) = Some (Some 401, ''bad key'')"
  by (simp add: unauthorized_def)

lemma notFoundOnce_fails: "failure (modelRun notFoundOnce 0) = Some (Some 404, ''no model'')"
  by (simp add: notFoundOnce_def)

lemma notFoundOnce_run:
  "analyzeWithRetry notFoundOnce ''s1'' 0 demoWorkflow =
     completeAnalysis ''s1'' getFallbackFeedback
       (afterAttempt notFoundOnce ''s1'' 1
         (snd (reinitializeModel notFoundOnce 0 (afterAttempt notFoundOnce ''s1'' 0 demoWorkflow))))"
proof -
  have 0: "analyzeWithRetry notFoundOnce ''s1'' 0 st = analyzeWithRetry notFoundOnce ''s1'' 1
             (snd (reinitializeModel notFoundOnce 0 (afterAttempt notFoundOnce ''s1'' 0 st)))" for st
    using step_notFound[OF notFoundOnce_fails class404(1), of "''s1''" st]
    by (simp add: maxRetries_def notFoundOnce_def)
  have ok: "failure (modelRun notFoundOnce 1) = None" by (simp add: notFoundOnce_def)
  have p: "parseResponse (JSON_parse notFoundOnce) (concat (chunks (modelRun notFoundOnce 1)))
      = Inr getFallbackFeedback"
    by (simp add: notFoundOnce_def parseResponse_def parseBody_def trim_def)
  have 1: "analyzeWithRetry notFoundOnce ''s1'' 1 st =
      completeAnalysis ''s1'' getFallbackFeedback (afterAttempt notFoundOnce ''s1'' 1 st)" for st
    using step_success[OF ok, of "''s1''" st] p by auto
  show ?thesis by (simp only: 0 1)
qed

lemma unauthorized_state:
  "analyzeWithRetry unauthorized ''s1'' 0 demoWorkflow =
    \<lparr> sessions = [''s1'' \<mapsto> extractedSession \<lparr> status := ''error'', updatedAt := 100,
         retryCount := 1,
         lastError := Some ''Unauthorized access to AI service. Please check your API key.'' \<rparr>],
      trace = [Broadcast ''s1'' AnalysisStarted, Analyze 0,
         Broadcast ''s1''
           (ErrorEvent ''Unauthorized access to AI service. Please check your API key.''
             \<lparr> code = ''AI_ANALYSIS_FAILED'', stage = ''analysis'',
               retryable = False, attempts = Some 1 \<rparr>)],
      clock = 100 \<rparr>"
proof -
  have "analyzeWithRetry unauthorized ''s1'' 0 demoWorkflow =
      failAnalysis ''s1'' ''Unauthorized access to AI service. Please check your API key.'' False 0
        (afterAttempt unauthorized ''s1'' 0 demoWorkflow)"
    using step_terminal[OF unauthorized_fails class401(1), of 0 "''s1''" demoWorkflow]
      class401(2)[of "''bad key''"]
    by (simp add: msg401)
  then show ?thesis
    by (simp add: workflow_defs unauthorized_def demoWorkflow_def extractedSession_def)
qed

text \<open>
  Claim C3, as stated: every failure classified not-found ends the run in \<open>error\<close> at
  once, with no backoff and no further attempt. When the first call fails with status
  404 and \<open>reinitializeModel\<close> succeeds, the run goes on: it sleeps 1000 ms, calls the
  model again, and here ends \<open>completed\<close>.
\<close>

theorem C3_not_found_is_retried:
  "failure (modelRun notFoundOnce 0) = Some (Some 404, ''no model'') \<and>
   trace (analyzeWithRetry notFoundOnce ''s1'' 0 demoWorkflow) =
     [Broadcast ''s1'' AnalysisStarted, Analyze 0, Reinitialize,
      Broadcast ''s1'' (RetryStarted 1 (Some ''analysis'')), Sleep 1000, Analyze 1,
      Broadcast ''s1'' (AnalysisCompleted getFallbackFeedback)] \<and>
   map_option status (sessions (analyzeWithRetry notFoundOnce ''s1'' 0 demoWorkflow) ''s1'') =
     Some ''completed''"
  unfolding notFoundOnce_run
  by (simp add: workflow_defs notFoundOnce_def demoWorkflow_def extractedSession_def
      parseResponse_def parseBody_def trim_def)

text \<open>
  Claim C3, amended, for \<open>analyzeWithRetry\<close> of the upload route and an attempt whose
  model call fails. With status 401 the run only reports the error: one error event
  with \<open>retryable: false\<close>, the session set to \<open>error\<close>, no sleep and no further call.
  With status 404 \<open>reinitializeModel\<close> is called first; if it succeeds and
  \<open>retryCount < 3\<close> the analysis is attempted again, otherwise the run reports the error
  in the same way. With status 429, or 500 and above, the analysis is attempted again
  while \<open>retryCount < 3\<close>. Whatever the status, the class is read off the message: a
  failure whose message contains none of \<open>model not found\<close>, \<open>Unauthorized\<close> and
  \<open>API key\<close> is attempted again while \<open>retryCount < 3\<close>, and one whose message contains
  \<open>Unauthorized\<close> or \<open>API key\<close> but not \<open>model not found\<close> is reported at once.
\<close>

theorem C3_failure_classes:
  assumes "failure (modelRun env n) = Some (es, em)"
  shows
    "(es = Some 401 \<longrightarrow>
        endsInError sid (thrownMessage es em) (afterAttempt env sid n st)
          (analyzeWithRetry env sid n st)) \<and>
     (es = Some 404 \<longrightarrow>
        (if reinitOk env n \<and> n < maxRetries
         then analyzeWithRetry env sid n st =
                analyzeWithRetry env sid (Suc n)
                  (snd (reinitializeModel env n (afterAttempt env sid n st)))
         else endsInError sid (thrownMessage es em)
                (snd (reinitializeModel env n (afterAttempt env sid n st)))
                (analyzeWithRetry env sid n st))) \<and>
     ((es = Some 429 \<or> (\<exists>k. es = Some k \<and> 500 \<le> k)) \<and> n < maxRetries \<longrightarrow>
        analyzeWithRetry env sid n st =
          analyzeWithRetry env sid (Suc n) (afterAttempt env sid n st)) \<and>
     (isRetryable (thrownMessage es em) \<and> n < maxRetries \<longrightarrow>
        analyzeWithRetry env sid n st =
          analyzeWithRetry env sid (Suc n) (afterAttempt env sid n st)) \<and>
     (\<not> isRetryable (thrownMessage es em) \<and>
      \<not> includes_str (thrownMessage es em) ''model not found'' \<longrightarrow>
        endsInError sid (thrownMessage es em) (afterAttempt env sid n st)
          (analyzeWithRetry env sid n st))"
proof (intro conjI impI)
  assume e: "es = Some 401"
  have "analyzeWithRetry env sid n st =
          failAnalysis sid (thrownMessage es em) False n (afterAttempt env sid n st)"
    using step_terminal[OF assms, of sid st] class401[of em] e by simp
  then show "endsInError sid (thrownMessage es em) (afterAttempt env sid n st)
          (analyzeWithRetry env sid n st)"
    by (simp add: failAnalysis_endsInError)
next
  assume e: "es = Some 404"
  show "if reinitOk env n \<and> n < maxRetries
         then analyzeWithRetry env sid n st =
                analyzeWithRetry env sid (Suc n)
                  (snd (reinitializeModel env n (afterAttempt env sid n st)))
         else endsInError sid (thrownMessage es em)
                (snd (reinitializeModel env n (afterAttempt env sid n st)))
                (analyzeWithRetry env sid n st)"
    using step_notFound[OF assms, of sid st] class404(1)[of em] e
    by (simp add: failAnalysis_endsInError)
next
  assume a: "(es = Some 429 \<or> (\<exists>k. es = Some k \<and> 500 \<le> k)) \<and> n < maxRetries"
  then have "\<not> includes_str (thrownMessage es em) ''model not found''"
    and "isRetryable (thrownMessage es em)"
    using class429[of em] class5xx[of _ em] by auto
  then show "analyzeWithRetry env sid n st =
          analyzeWithRetry env sid (Suc n) (afterAttempt env sid n st)"
    using step_retry[OF assms, of sid st] a by simp
next
  assume a: "isRetryable (thrownMessage es em) \<and> n < maxRetries"
  then have "\<not> includes_str (thrownMessage es em) ''model not found''"
    by (simp add: isRetryable_def)
  then show "analyzeWithRetry env sid n st =
          analyzeWithRetry env sid (Suc n) (afterAttempt env sid n st)"
    using step_retry[OF assms, of sid st] a by simp
next
  assume a: "\<not> isRetryable (thrownMessage es em) \<and>
      \<not> includes_str (thrownMessage es em) ''model not found''"
  then have "analyzeWithRetry env sid n st =
          failAnalysis sid (thrownMessage es em) False n (afterAttempt env sid n st)"
    using step_terminal[OF assms, of sid st] by simp
  then show "endsInError sid (thrownMessage es em) (afterAttempt env sid n st)
          (analyzeWithRetry env sid n st)"
    by (simp add: failAnalysis_endsInError)
qed

theorem C3_witness:
  "endsInError ''s1'' ''Unauthorized access to AI service. Please check your API key.''
     (afterAttempt unauthorized ''s1'' 0 demoWorkflow)
     (analyzeWithRetry unauthorized ''s1'' 0 demoWorkflow) \<and>
   trace (analyzeWithRetry unauthorized ''s1'' 0 demoWorkflow) =
     [Broadcast ''s1'' AnalysisStarted, Analyze 0,
      Broadcast ''s1''
        (ErrorEvent ''Unauthorized access to AI service. Please check your API key.''
          \<lparr> code = ''AI_ANALYSIS_FAILED'', stage = ''analysis'',
            retryable = False, attempts = Some 1 \<rparr>)] \<and>
   map_option status (sessions (analyzeWithRetry unauthorized ''s1'' 0 demoWorkflow) ''s1'') =
     Some ''error'' \<and>
   analyzeWithRetry notFoundOnce ''s1'' 0 demoWorkflow =
     analyzeWithRetry notFoundOnce ''s1'' 1
       (snd (reinitializeModel notFoundOnce 0 (afterAttempt notFoundOnce ''s1'' 0 demoWorkflow))) \<and>
   analyzeWithRetry rateLimited ''s1'' 0 demoWorkflow =
     analyzeWithRetry rateLimited ''s1'' 1 (afterAttempt rateLimited ''s1'' 0 demoWorkflow)"
  using C3_failure_classes[where env=unauthorized and n=0 and sid="''s1''" and st=demoWorkflow,
      OF unauthorized_fails]
    C3_failure_classes[where env=notFoundOnce and n=0 and sid="''s1''" and st=demoWorkflow,
      OF notFoundOnce_fails]
    C3_failure_classes[where env=rateLimited and n=0 and sid="''s1''" and st=demoWorkflow,
      OF rateLimited_fails]
  by (simp add: msg401 msg429 maxRetries_def notFoundOnce_def unauthorized_state extractedSession_def)

section \<open>The retry count and the error payload after the last attempt\<close>

text \<open>
  Claim C1 says that the stored \<open>retryCount\<close> never exceeds \<open>maxRetries = 3\<close>. The last
  \<open>else\<close> of \<open>analyzeWithRetry\<close> stores \<open>retryCount + 1\<close>: after four failed attempts
  (the first and three retries) against a model that always answers 429, the session
  holds \<open>retryCount = 4\<close>.
\<close>

theorem C1_exhausted_run_stores_four:
  "map_option retryCount (sessions (analyzeWithRetry rateLimited ''s1'' 0 demoWorkflow) ''s1'')
     = Some 4 \<and> maxRetries = 3"
  by (simp add: rateLimited_state maxRetries_def)

text \<open>
  Claim C4 says that after the attempts are exhausted the session is in \<open>error\<close> and the
  error event carries \<open>retryable = false\<close> with the final attempt count. In the run of
  the upload route the session is in \<open>error\<close> and the count is 4, but the payload has
  \<open>retryable: true\<close>; in the run of the process route the payload has
  \<open>retryable: false\<close> and the count 4, but the session is still \<open>extracted\<close>.
\<close>

theorem C4_exhausted_payload_says_retryable:
  "last (trace (analyzeWithRetry rateLimited ''s1'' 0 demoWorkflow)) =
     Broadcast ''s1'' (ErrorEvent ''Rate limit exceeded. Please try again later.''
       \<lparr> code = ''AI_ANALYSIS_FAILED'', stage = ''analysis'',
         retryable = True, attempts = Some 4 \<rparr>) \<and>
   map_option status (sessions (analyzeWithRetry rateLimited ''s1'' 0 demoWorkflow) ''s1'')
     = Some ''error'' \<and>
   last (trace (analyzeWithRetry_process rateLimited ''s1'' 0 demoWorkflow)) =
     Broadcast ''s1'' (ErrorEvent ''AI analysis failed after multiple attempts''
       \<lparr> code = ''AI_ANALYSIS_FAILED'', stage = ''analysis'',
         retryable = False, attempts = Some 4 \<rparr>) \<and>
   map_option status (sessions (analyzeWithRetry_process rateLimited ''s1'' 0 demoWorkflow) ''s1'')
     = Some ''extracted''"
  by (simp add: rateLimited_state rateLimited_process_run extractedSession_def)

section \<open>The manual retry routes\<close>

text \<open>
  The route \<open>/events/:sessionId/retry\<close> refuses a session that is not in \<open>error\<close> or whose
  \<open>retryCount\<close> has reached 3, and changes nothing then; otherwise it sets
  \<open>retrying\<close>, clears \<open>lastError\<close>, adds one to \<open>retryCount\<close> and announces the retry.
\<close>

lemma retry_events_rejects:
  assumes "sessions st sid = Some s" and "\<not> isSessionExpired (clock st) s" and "sid \<noteq> []"
    and "status s \<noteq> ''error'' \<or> maxRetries \<le> retryCount s"
  shows "retry_events sid st =
     (JsonError 400 (if status s \<noteq> ''error'' then ''INVALID_SESSION_STATE''
                      else ''MAX_RETRIES_EXCEEDED''), st)"
  using assms by (auto simp: retry_events_def getSession_def Let_def maxRetries_def)

lemma retry_events_accepts:
  assumes "sessions st sid = Some s" and "\<not> isSessionExpired (clock st) s" and "sid \<noteq> []"
    and "status s = ''error''" and "retryCount s < maxRetries"
  shows "retry_events sid st =
     (RetryAccepted (retryCount s + 1),
      st \<lparr> sessions := (sessions st)(sid \<mapsto> s \<lparr> status := ''retrying'',
               retryCount := retryCount s + 1, lastError := None,
               updatedAt := clock st, sessionId := sid \<rparr>),
           trace := trace st @ [Broadcast sid (RetryStarted (retryCount s + 1) None)] \<rparr>)"
  using assms
  by (simp add: retry_events_def getSession_def Let_def maxRetries_def broadcast_def
      sessionManager_updateSession_def updateSession_def spread_def noData_def)

text \<open>
  Claim C2 says that a manual retry of a \<open>completed\<close> session is refused with no state
  change, and that an accepted retry starts the workflow again at the analysis. The
  route \<open>/process/:sessionId/retry\<close> has no check: on a \<open>completed\<close> session it answers with
  success, sets the session to \<open>retrying\<close> with \<open>retryCount = 1\<close> and starts the whole
  workflow. The route \<open>/events/:sessionId/retry\<close> refuses that session; on a session in \<open>error\<close>
  it accepts, and starts nothing: its trace holds the retry announcement alone.
\<close>

theorem C2_process_retry_accepts_completed:
  "retry_process ''s1'' completedWorkflow =
     (RetryAccepted 1,
      \<lparr> sessions = [''s1'' \<mapsto> extractedSession \<lparr> status := ''retrying'', retryCount := 1 \<rparr>],
        trace = [StartWorkflow ''s1''], clock = 0 \<rparr>) \<and>
   retry_events ''s1'' completedWorkflow =
     (JsonError 400 ''INVALID_SESSION_STATE'', completedWorkflow) \<and>
   retry_events ''s1'' erroredWorkflow =
     (RetryAccepted 2,
      \<lparr> sessions = [''s1'' \<mapsto> extractedSession \<lparr> status := ''retrying'', retryCount := 2 \<rparr>],
        trace = [Broadcast ''s1'' (RetryStarted 2 None)], clock = 0 \<rparr>)"
  by (simp add: retry_process_def retry_events_def completedWorkflow_def erroredWorkflow_def
      workflow_defs extractedSession_def numeral_2_eq_2)

end
